theory Spec2Isabelle
  imports Main "HOL-Library.Word"
begin

unbundle bit_operations_syntax

section \<open>Kernel data\<close>

text \<open>
  Pointers to sockets and processes are modelled as addresses into a store; the UDP
  endpoint table holds such addresses, so that a delivery through a table entry changes the
  very socket that was bound.
\<close>

type_synonym sock_ptr = nat
type_synonym proc_ptr = nat

datatype errno = EINVAL | EADDRINUSE | EADDRNOTAVAIL | EMSGSIZE | EDESTADDRREQ | EFAULT

text \<open>
  The members of \<open>struct sockaddr_in\<close> that the UDP code reads: \<open>sin_addr.s_addr\<close> and
  \<open>sin_port\<close>, both kept in network byte order as the user supplied them.
\<close>

record sockaddr_in =
  sin_addr :: "32 word"
  sin_port :: "16 word"

text \<open>
  A packet: its buffer as byte memory, and the cursors of \<open>struct packet\<close> as addresses
  into it (\<open>data\<close> is the address of the buffer, \<open>tl\<close> the transport header, \<open>al\<close> the
  application payload, \<open>end\<close> the end marker). The UDP header \<open>pkt->udp\<close> is the overlay at
  \<open>tl\<close>, and \<open>pkt->app\<close> is the application cursor \<open>al\<close>.
\<close>

record packet =
  pkt_mem :: "int \<Rightarrow> 8 word"
  pkt_data :: int
  pkt_tl :: int
  pkt_al :: int
  pkt_end :: int

record socket =
  src :: sockaddr_in
  dst :: sockaddr_in
  sk_bound :: bool
  sk_connected :: bool
  recvq :: "packet list"
  recvwait :: "proc_ptr list"

text \<open>
  \<open>struct udp_wait_entry\<close>. A socket-bound entry is allocated by \<open>kmalloc\<close> and only its
  \<open>sock\<close> and \<open>port\<close> are written; \<open>proc\<close> and \<open>rcv\<close> then hold nothing the code reads,
  which is \<open>None\<close> here.
\<close>

record udp_wait_entry =
  sock :: "sock_ptr option"
  proc :: "proc_ptr option"
  rcv :: "packet option"
  port :: "16 word"

text \<open>
  The globals of the UDP code: the table \<open>udp_hlist\<close> (128 chains, indexed by hash), the
  sockets and the ready flags of the processes the entries point to, the interface address
  \<open>nif.ip\<close>, the static cursor \<open>i\<close> of the ephemeral allocator, and what the code hands to
  its collaborators: the packets given to \<open>packet_free\<close>, the lines given to \<open>puts\<close>, the
  calls of \<open>ip_send\<close>.
\<close>

record kstate =
  udp_hlist :: "nat \<Rightarrow> udp_wait_entry list"
  sockets :: "sock_ptr \<Rightarrow> socket"
  pr_ready :: "proc_ptr \<Rightarrow> bool"
  nif_ip :: "32 word"
  eph_i :: "16 word"
  freed :: "packet list"
  console :: "string list"
  ip_sent :: "(packet \<times> 8 word \<times> 32 word \<times> 32 word) list"

text \<open>
  Constants of the kernel headers that the two source files use and do not define: they are
  parameters of the model.
\<close>

record kconsts =
  sizeof_sockaddr_in :: nat
  MAX_ETH_PKT_SIZE :: "32 word"
  ip_reserve :: int

section \<open>Collaborators\<close>

text \<open>
  Modelled from the spec: \<open>htons\<close> and \<open>ntohs\<close> are declared in \<open>net.h\<close>, which is not among
  the source files. The spec distinguishes network byte order from the host order of the
  table's ports; on the little-endian target both conversions swap the two bytes of a
  16-bit value.
\<close>

definition htons :: "16 word \<Rightarrow> 16 word" where
  "htons x = push_bit 8 x OR drop_bit 8 x"

definition ntohs :: "16 word \<Rightarrow> 16 word" where
  "ntohs x = push_bit 8 x OR drop_bit 8 x"

text \<open>
  Modelled from the spec: \<open>copy_from_user\<close> is not among the source files; it "returns 0 on
  success or a negative error (\<open>-EFAULT\<close> on fault)". A user pointer is what can be read
  through it: \<open>None\<close> when the access faults.
\<close>

definition copy_from_user :: "'a option \<Rightarrow> errno + 'a" where
  "copy_from_user usersrc = (case usersrc of None \<Rightarrow> Inl EFAULT | Some v \<Rightarrow> Inr v)"

text \<open>
  Modelled from the spec: \<open>hlist_insert\<close> is declared in the kernel's list header, not among
  the source files. The spec says that the entry is inserted into the bucket and not where;
  the model links it in at the head of the chain, behind the list head the call is given.
\<close>

definition hlist_insert :: "'a list \<Rightarrow> 'a \<Rightarrow> 'a list" where
  "hlist_insert chain item = item # chain"

section \<open>The UDP endpoint table\<close>

definition UDP_HLIST_SIZE :: nat where
  "UDP_HLIST_SIZE = 128"

definition udp_hash :: "16 word \<Rightarrow> nat" where
  "udp_hash p = unat p mod UDP_HLIST_SIZE"

definition lookup_entry :: "kstate \<Rightarrow> 16 word \<Rightarrow> udp_wait_entry option" where
  "lookup_entry K p = find (\<lambda>entry. port entry = p) (udp_hlist K (udp_hash p))"

definition udp_do_bind :: "kstate \<Rightarrow> sock_ptr \<Rightarrow> sockaddr_in \<Rightarrow> kstate" where
  "udp_do_bind K s addr =
     (let hash = udp_hash (ntohs (sin_port addr));
          entry = \<lparr>sock = Some s, proc = None, rcv = None, port = ntohs (sin_port addr)\<rparr>
      in K\<lparr>udp_hlist := (udp_hlist K)(hash := hlist_insert (udp_hlist K hash) entry),
            sockets := (sockets K)(s := (sockets K s)\<lparr>src := addr, sk_bound := True\<rparr>)\<rparr>)"

definition udp_bind ::
  "kconsts \<Rightarrow> kstate \<Rightarrow> sock_ptr \<Rightarrow> sockaddr_in option \<Rightarrow> nat \<Rightarrow> (errno + int) \<times> kstate" where
  "udp_bind C K s address address_len =
     (if sk_bound (sockets K s) then (Inl EINVAL, K)
      else if address_len \<noteq> sizeof_sockaddr_in C then (Inl EINVAL, K)
      else case copy_from_user address of
             Inl rv \<Rightarrow> (Inl rv, K)
           | Inr addr \<Rightarrow>
               if sin_addr addr \<noteq> 0 \<and> sin_addr addr \<noteq> nif_ip K then (Inl EADDRNOTAVAIL, K)
               else if lookup_entry K (sin_port addr) \<noteq> None then (Inl EADDRINUSE, K)
               else (Inr 0, udp_do_bind K s addr))"

definition udp_connect ::
  "kconsts \<Rightarrow> kstate \<Rightarrow> sock_ptr \<Rightarrow> sockaddr_in option \<Rightarrow> nat \<Rightarrow> (errno + int) \<times> kstate" where
  "udp_connect C K s address address_len =
     (if address_len \<noteq> sizeof_sockaddr_in C then (Inl EINVAL, K)
      else case copy_from_user address of
             Inl rv \<Rightarrow> (Inl rv, K)
           | Inr addr \<Rightarrow>
               (Inr 0, K\<lparr>sockets := (sockets K)(s := (sockets K s)\<lparr>dst := addr, sk_connected := True\<rparr>)\<rparr>))"

definition udp_init :: "kstate \<Rightarrow> kstate" where
  "udp_init K = K\<lparr>udp_hlist := (\<lambda>i. [])\<rparr>"

section \<open>Packet memory\<close>

text \<open>
  A 16-bit field of a header overlaid on the buffer, as the little-endian target reads and
  writes it: the low byte at the lower address.
\<close>

definition read16 :: "(int \<Rightarrow> 8 word) \<Rightarrow> int \<Rightarrow> 16 word" where
  "read16 m a = ucast (m a) OR push_bit 8 (ucast (m (a + 1)))"

definition write16 :: "(int \<Rightarrow> 8 word) \<Rightarrow> int \<Rightarrow> 16 word \<Rightarrow> (int \<Rightarrow> 8 word)" where
  "write16 m a v = m(a := ucast v, a + 1 := ucast (drop_bit 8 v))"

text \<open>The fields of \<open>struct udphdr\<close> (8 bytes) at the transport cursor.\<close>

definition sizeof_udphdr :: int where
  "sizeof_udphdr = 8"

definition udp_src_port :: "packet \<Rightarrow> 16 word" where
  "udp_src_port pkt = read16 (pkt_mem pkt) (pkt_tl pkt)"

definition udp_dst_port :: "packet \<Rightarrow> 16 word" where
  "udp_dst_port pkt = read16 (pkt_mem pkt) (pkt_tl pkt + 2)"

definition udp_len :: "packet \<Rightarrow> 16 word" where
  "udp_len pkt = read16 (pkt_mem pkt) (pkt_tl pkt + 4)"

definition udp_csum :: "packet \<Rightarrow> 16 word" where
  "udp_csum pkt = read16 (pkt_mem pkt) (pkt_tl pkt + 6)"

section \<open>More collaborators\<close>

text \<open>
  Modelled from the spec: \<open>packet_free\<close> and \<open>puts\<close> are not among the source files; the
  model records the packet released and the line printed (without its final newline).
\<close>

definition packet_free :: "kstate \<Rightarrow> packet \<Rightarrow> kstate" where
  "packet_free K pkt = K\<lparr>freed := freed K @ [pkt]\<rparr>"

definition puts :: "kstate \<Rightarrow> string \<Rightarrow> kstate" where
  "puts K line = K\<lparr>console := console K @ [line]\<rparr>"

text \<open>
  Modelled from the spec: \<open>list_insert_end\<close> appends to the socket's FIFO receive queue;
  \<open>wait_list_awaken\<close> is the wake-up half of the cooperative wait primitive: every process
  waiting on the list is marked ready and leaves the list.
\<close>

definition list_insert_end :: "'a list \<Rightarrow> 'a \<Rightarrow> 'a list" where
  "list_insert_end q item = q @ [item]"

definition wait_list_awaken :: "kstate \<Rightarrow> sock_ptr \<Rightarrow> kstate" where
  "wait_list_awaken K s =
     K\<lparr>pr_ready := (\<lambda>p. if p \<in> set (recvwait (sockets K s)) then True else pr_ready K p),
       sockets := (sockets K)(s := (sockets K s)\<lparr>recvwait := []\<rparr>)\<rparr>"

text \<open>
  Modelled from the spec: \<open>ip_send\<close> "completes the network-layer encapsulation and hands
  the packet to the link layer"; the model records the call.
\<close>

definition ip_send :: "kstate \<Rightarrow> packet \<Rightarrow> 8 word \<Rightarrow> 32 word \<Rightarrow> 32 word \<Rightarrow> kstate" where
  "ip_send K pkt proto src_ip dst_ip = K\<lparr>ip_sent := ip_sent K @ [(pkt, proto, src_ip, dst_ip)]\<rparr>"

definition IPPROTO_UDP :: "8 word" where
  "IPPROTO_UDP = 17"

section \<open>The receive path\<close>

text \<open>
  The walk of \<open>udp_recv\<close> over the chain of the destination port's bucket: \<open>seen\<close> are the
  entries already passed, the second list those still to visit. An entry without socket is
  a waiter made by \<open>udp_wait\<close>, which always sets its process.
\<close>

fun udp_recv_walk ::
  "kstate \<Rightarrow> packet \<Rightarrow> nat \<Rightarrow> udp_wait_entry list \<Rightarrow> udp_wait_entry list \<Rightarrow> kstate" where
  "udp_recv_walk K pkt hash seen [] =
     packet_free (puts K ''nobody was waiting for this packet, freeing'') pkt"
| "udp_recv_walk K pkt hash seen (entry # rest) =
     (case sock entry of
        Some s \<Rightarrow>
          wait_list_awaken
            (K\<lparr>sockets := (sockets K)(s := (sockets K s)\<lparr>recvq := list_insert_end (recvq (sockets K s)) pkt\<rparr>)\<rparr>) s
      | None \<Rightarrow>
          if port entry = ntohs (udp_dst_port pkt) then
            K\<lparr>udp_hlist := (udp_hlist K)(hash := seen @ entry\<lparr>rcv := Some pkt\<rparr> # rest),
              pr_ready := (case proc entry of None \<Rightarrow> pr_ready K | Some p \<Rightarrow> (pr_ready K)(p := True))\<rparr>
          else udp_recv_walk K pkt hash (seen @ [entry]) rest)"

definition udp_recv :: "kstate \<Rightarrow> packet \<Rightarrow> kstate" where
  "udp_recv K pkt0 =
     (let hash = udp_hash (ntohs (udp_dst_port pkt0));
          pkt = pkt0\<lparr>pkt_al := pkt_tl pkt0 + sizeof_udphdr\<rparr>
      in udp_recv_walk K pkt hash [] (udp_hlist K hash))"

section \<open>Ephemeral ports\<close>

text \<open>
  The loop \<open>while (tries--)\<close> of \<open>udp_bind_to_ephemeral\<close>, by the number of tries left. The
  static cursor \<open>i\<close> is \<open>eph_i\<close>.
\<close>

fun udp_bind_to_ephemeral_loop :: "nat \<Rightarrow> kstate \<Rightarrow> sock_ptr \<Rightarrow> bool \<times> kstate" where
  "udp_bind_to_ephemeral_loop 0 K s = (False, K)"
| "udp_bind_to_ephemeral_loop (Suc tries) K s =
     (let prev = eph_i K;
          K1 = K\<lparr>eph_i := (if prev = 65535 then 20000 else prev + 1)\<rparr>
      in if lookup_entry K1 (htons prev) = None
         then (True, udp_do_bind K1 s \<lparr>sin_addr = 0, sin_port = htons prev\<rparr>)
         else udp_bind_to_ephemeral_loop tries K1 s)"

definition udp_bind_to_ephemeral :: "kstate \<Rightarrow> sock_ptr \<Rightarrow> bool \<times> kstate" where
  "udp_bind_to_ephemeral K s = udp_bind_to_ephemeral_loop 100 K s"

section \<open>The checksum accumulator\<close>

text \<open>
  Modelled from the spec: \<open>csum_init\<close>, \<open>csum_add\<close>, \<open>csum_add_value\<close> and \<open>csum_finalize\<close>
  are not among the source files; they are the "one's-complement accumulator over byte
  pairs". The accumulator is the \<open>uint32_t csum\<close> of \<open>udp_send\<close>: \<open>csum_add\<close> adds \<open>n\<close>
  16-bit words, \<open>csum_finalize\<close> folds the carries back into the low 16 bits and
  complements the result.
\<close>

definition csum_init :: "32 word" where
  "csum_init = 0"

fun csum_add :: "32 word \<Rightarrow> 16 word list \<Rightarrow> 32 word" where
  "csum_add csum [] = csum"
| "csum_add csum (w # ws) = csum_add (csum + ucast w) ws"

definition csum_add_value :: "32 word \<Rightarrow> 16 word \<Rightarrow> 32 word" where
  "csum_add_value csum v = csum + ucast v"

function csum_fold :: "32 word \<Rightarrow> 32 word" where
  "csum_fold csum =
     (if drop_bit 16 csum = 0 then csum
      else csum_fold (take_bit 16 csum + drop_bit 16 csum))"
  by pat_completeness auto

termination csum_fold
proof (relation "measure unat")
  show "wf (measure (unat :: 32 word \<Rightarrow> nat))" by simp
next
  fix c :: "32 word"
  assume nz: "drop_bit 16 c \<noteq> 0"
  have d: "unat (drop_bit 16 c) = unat c div 65536"
    by (simp add: unat_drop_bit_eq drop_bit_eq_div unat_div)
  have t: "unat (take_bit 16 c) = unat c mod 65536"
    by (simp add: unsigned_take_bit_eq take_bit_eq_mod unat_mod)
  have nz': "unat c div 65536 \<noteq> 0"
    using nz d by (metis unat_eq_0)
  have lt: "unat c < 2 ^ 32" using unsigned_less [of c] by simp
  have "unat (take_bit 16 c + drop_bit 16 c) = (unat c mod 65536 + unat c div 65536) mod 2 ^ 32"
    by (simp add: unat_word_ariths d t)
  also have "\<dots> = unat c mod 65536 + unat c div 65536"
    using lt by (intro mod_less) simp
  also have "\<dots> < unat c"
  proof -
    define q r where "q = unat c div 65536" and "r = unat c mod 65536"
    have "unat c = 65536 * q + r" unfolding q_def r_def by simp
    moreover have "0 < q" using nz' unfolding q_def by simp
    ultimately show ?thesis unfolding q_def [symmetric] r_def [symmetric] by linarith
  qed
  finally show "(take_bit 16 c + drop_bit 16 c, c) \<in> measure unat" by simp
qed

definition csum_finalize :: "32 word \<Rightarrow> 16 word" where
  "csum_finalize csum = NOT (ucast (csum_fold csum))"

text \<open>
  What \<open>csum_add\<close> reads through its \<open>uint16_t *\<close> argument: \<open>n\<close> consecutive 16-bit words
  of packet memory, or the two halves of a 32-bit local variable (low half first on the
  little-endian target).
\<close>

fun load16s :: "(int \<Rightarrow> 8 word) \<Rightarrow> int \<Rightarrow> nat \<Rightarrow> 16 word list" where
  "load16s m a 0 = []"
| "load16s m a (Suc n) = read16 m a # load16s m (a + 2) n"

definition halves32 :: "32 word \<Rightarrow> 16 word list" where
  "halves32 w = [ucast w, ucast (drop_bit 16 w)]"

section \<open>The send path\<close>

definition udp_send ::
  "kstate \<Rightarrow> packet \<Rightarrow> 32 word \<Rightarrow> 32 word \<Rightarrow> 16 word \<Rightarrow> 16 word \<Rightarrow> kstate" where
  "udp_send K pkt src_ip dst_ip src_port dst_port =
     (let t = pkt_al pkt - sizeof_udphdr;
          m1 = write16 (pkt_mem pkt) t src_port;
          m2 = write16 m1 (t + 2) dst_port;
          m3 = write16 m2 (t + 4) (htons (word_of_int (pkt_end pkt - t)));
          len0 = (word_of_int (pkt_end pkt - t) :: 32 word);
          len_rounded = (len0 div 2) + (len0 mod 2);
          m4 = write16 m3 (t + 6) 0;
          csum = csum_init;
          csum = csum_add csum (halves32 src_ip);
          csum = csum_add csum (halves32 dst_ip);
          csum = csum_add_value csum (ntohs (ucast IPPROTO_UDP));
          csum = csum_add csum (load16s m4 (t + 4) 1);
          csum = csum_add csum (load16s m4 t (unat len_rounded));
          m5 = write16 m4 (t + 6) (csum_finalize csum)
      in ip_send K (pkt\<lparr>pkt_tl := t, pkt_mem := m5\<rparr>) IPPROTO_UDP src_ip dst_ip)"

definition udp_reserve :: "kconsts \<Rightarrow> int" where
  "udp_reserve C = ip_reserve C + sizeof_udphdr"

text \<open>
  \<open>udp_sys_send\<close>. The comparison \<open>space + len > MAX_ETH_PKT_SIZE\<close> is between \<open>int\<close> and
  \<open>size_t\<close>, so it is made in 32-bit unsigned arithmetic; the value returned is \<open>len\<close> read
  as an \<open>int\<close>. \<open>data\<close> is the user buffer (\<open>None\<close> when reading it faults, else the byte at
  each offset), \<open>fresh\<close> the packet that \<open>packet_alloc\<close> hands out.
\<close>

definition store_bytes :: "(int \<Rightarrow> 8 word) \<Rightarrow> int \<Rightarrow> (nat \<Rightarrow> 8 word) \<Rightarrow> nat \<Rightarrow> (int \<Rightarrow> 8 word)" where
  "store_bytes m a bytes n = (\<lambda>x. if a \<le> x \<and> x < a + int n then bytes (nat (x - a)) else m x)"

definition udp_sys_send ::
  "kconsts \<Rightarrow> kstate \<Rightarrow> sock_ptr \<Rightarrow> (nat \<Rightarrow> 8 word) option \<Rightarrow> 32 word \<Rightarrow> packet
     \<Rightarrow> (errno + int) \<times> kstate" where
  "udp_sys_send C K s data len fresh =
     (let space = udp_reserve C in
      if word_of_int space + len > MAX_ETH_PKT_SIZE C then (Inl EMSGSIZE, K)
      else if \<not> sk_connected (sockets K s) then (Inl EDESTADDRREQ, K)
      else
        case (if \<not> sk_bound (sockets K s) then udp_bind_to_ephemeral K s else (True, K)) of
          (False, K1) \<Rightarrow> (Inl EADDRINUSE, K1)
        | (True, K1) \<Rightarrow>
            (let pkt = fresh\<lparr>pkt_al := pkt_data fresh + space\<rparr> in
             case copy_from_user data of
               Inl rv \<Rightarrow> (Inl rv, packet_free K1 pkt)
             | Inr bytes \<Rightarrow>
                 (let pkt = pkt\<lparr>pkt_mem := store_bytes (pkt_mem pkt) (pkt_al pkt) bytes (unat len),
                                pkt_end := pkt_al pkt + uint len\<rparr>;
                      sk = sockets K1 s;
                      src_ip = (if sin_addr (src sk) \<noteq> 0 then sin_addr (src sk) else nif_ip K1)
                  in (Inr (sint len),
                      udp_send K1 pkt src_ip (sin_addr (dst sk)) (sin_port (src sk)) (sin_port (dst sk))))))"

section \<open>The receive system call\<close>

text \<open>
  \<open>socket_recvq_get\<close> peeks at the head of the receive queue. While the queue is empty
  \<open>udp_sys_recv\<close> sleeps in \<open>wait_for\<close>; what the rest of the kernel (the network interrupt)
  does to the state during each sleep is the list \<open>sleeps\<close>. When it is used up and the
  queue is still empty the call never returns: \<open>None\<close>.
\<close>

definition socket_recvq_get :: "kstate \<Rightarrow> sock_ptr \<Rightarrow> packet option" where
  "socket_recvq_get K s = (case recvq (sockets K s) of [] \<Rightarrow> None | pkt # rest \<Rightarrow> Some pkt)"

fun recv_wait :: "(kstate \<Rightarrow> kstate) list \<Rightarrow> kstate \<Rightarrow> sock_ptr \<Rightarrow> (packet \<times> kstate) option" where
  "recv_wait sleeps K s =
     (case socket_recvq_get K s of
        Some pkt \<Rightarrow> Some (pkt, K)
      | None \<Rightarrow> (case sleeps of [] \<Rightarrow> None | w # sleeps' \<Rightarrow> recv_wait sleeps' (w K) s))"

text \<open>
  Modelled from the spec: \<open>copy_to_user\<close> "returns 0 on success or a negative error
  (\<open>-EFAULT\<close> on fault)". The user buffer is writable or not; the bytes copied out are part
  of the result.
\<close>

definition copy_to_user :: "bool \<Rightarrow> 'a \<Rightarrow> errno + 'a" where
  "copy_to_user writable v = (if writable then Inr v else Inl EFAULT)"

definition load_bytes :: "(int \<Rightarrow> 8 word) \<Rightarrow> int \<Rightarrow> nat \<Rightarrow> 8 word list" where
  "load_bytes m a n = map (\<lambda>i. m (a + int i)) [0..<n]"

definition udp_sys_recv ::
  "(kstate \<Rightarrow> kstate) list \<Rightarrow> kstate \<Rightarrow> sock_ptr \<Rightarrow> bool \<Rightarrow> 32 word
     \<Rightarrow> ((errno + int) \<times> 8 word list \<times> kstate) option" where
  "udp_sys_recv sleeps K s data len =
     (if \<not> sk_bound (sockets K s) then Some (Inl EINVAL, [], K)
      else
        case recv_wait sleeps K s of
          None \<Rightarrow> None
        | Some (pkt, K1) \<Rightarrow>
            (let pktlen = (word_of_int (pkt_end pkt - pkt_al pkt) :: 32 word) in
             if pktlen > len then Some (Inl EMSGSIZE, [], K1)
             else
               case copy_to_user data (load_bytes (pkt_mem pkt) (pkt_al pkt) (unat pktlen)) of
                 Inl rv \<Rightarrow> Some (Inl rv, [], K1)
               | Inr bytes \<Rightarrow>
                   Some (Inr (sint pktlen), bytes,
                         packet_free (K1\<lparr>sockets := (sockets K1)(s := (sockets K1 s)\<lparr>recvq := tl (recvq (sockets K1 s))\<rparr>)\<rparr>) pkt)))"

section \<open>The virtio-MMIO driver\<close>

subsection \<open>Device registers\<close>

text \<open>
  The registers of \<open>virtio_regs\<close> that the driver touches; the two \<open>Config\<close> entries are
  the halves of the 64-bit \<open>capacity\<close> at the start of the block device's configuration
  space.
\<close>

datatype reg =
    MagicValue | Version | DeviceID | VendorID
  | DeviceFeatures | DeviceFeaturesSel | DriverFeatures | DriverFeaturesSel
  | QueueSel | QueueNumMax | QueueNum | QueueReady | QueueNotify
  | InterruptStatus | Status
  | QueueDescLow | QueueDescHigh | QueueAvailLow | QueueAvailHigh | QueueUsedLow | QueueUsedHigh
  | ConfigCapacityLow | ConfigCapacityHigh

text \<open>
  The device is an agent outside the program: what a register read returns and how a
  register write changes the device are parameters, over any type of device states.
\<close>

record 'd device =
  dev_read :: "'d \<Rightarrow> reg \<Rightarrow> 32 word"
  dev_write :: "'d \<Rightarrow> reg \<Rightarrow> 32 word \<Rightarrow> 'd"

record virtqueue_desc =
  desc_addr :: "64 word"
  desc_len :: "32 word"
  desc_flags :: "16 word"
  desc_next :: "16 word"

text \<open>
  \<open>struct virtqueue\<close>, which heads the page, with the memory its pointers lead to: the
  descriptor table and the avail ring are indexed as the code indexes them, with no bound
  (an index past the table or ring is memory further on in the page), and of the used ring
  only \<open>idx\<close> is written. The seven members are those \<open>virtq_create\<close> assigns.
\<close>

record virtqueue =
  vq_phys :: "32 word"
  vq_len :: "32 word"
  vq_desc :: "32 word"
  vq_avail :: "32 word"
  vq_used_event :: "32 word"
  vq_used :: "32 word"
  vq_avail_event :: "32 word"
  vq_addr :: "32 word"
  desc :: "nat \<Rightarrow> virtqueue_desc"
  avail_idx :: "16 word"
  avail_ring :: "16 word \<Rightarrow> 16 word"
  used_idx :: "16 word"

record virtio_blk_req =
  req_type :: "32 word"
  req_sector :: "64 word"

record virtio_blk =
  blk_regs :: "32 word"
  blk_virtq :: "virtqueue option"
  blk_intid :: "32 word"

text \<open>
  A line of output: the format string of \<open>printf\<close> or \<open>puts\<close>, without its final newline,
  with its string and integer arguments.
\<close>

type_synonym line = "string \<times> string list \<times> 32 word list"

text \<open>
  The state of the driver: the device, the register writes made so far, the output, the
  global \<open>blkdev\<close>, whether \<open>blkreq_slab\<close> exists, the interrupts enabled at the controller
  and the request headers filled in (by physical address).
\<close>

record 'd vstate =
  dev :: 'd
  mmio_log :: "(reg \<times> 32 word) list"
  vconsole :: "line list"
  blkdev :: virtio_blk
  blkreq_slab :: bool
  gic_enabled :: "32 word list"
  blk_reqs :: "(32 word \<times> virtio_blk_req) list"

text \<open>
  What the allocators and the page tables hand to the driver: the page size, the physical
  and virtual address of the page taken for the virtqueue with the page as found, and the
  physical address of the register bank.
\<close>

record venv =
  PAGE_SIZE :: "32 word"
  page_phys :: "32 word"
  page_virt :: "32 word"
  page :: virtqueue
  regs_phys :: "32 word"

datatype outcome = Returns int | NoReturnValue | NullDeref

definition READ32 :: "'d device \<Rightarrow> 'd vstate \<Rightarrow> reg \<Rightarrow> 32 word" where
  "READ32 D V r = dev_read D (dev V) r"

definition WRITE32 :: "'d device \<Rightarrow> 'd vstate \<Rightarrow> reg \<Rightarrow> 32 word \<Rightarrow> 'd vstate" where
  "WRITE32 D V r v = V\<lparr>dev := dev_write D (dev V) r v, mmio_log := mmio_log V @ [(r, v)]\<rparr>"

definition printf :: "'d vstate \<Rightarrow> string \<Rightarrow> string list \<Rightarrow> 32 word list \<Rightarrow> 'd vstate" where
  "printf V fmt strs args = V\<lparr>vconsole := vconsole V @ [(fmt, strs, args)]\<rparr>"

definition VIRTIO_MAGIC :: "32 word" where
  "VIRTIO_MAGIC = 0x74726976"

definition VIRTIO_VERSION :: "32 word" where
  "VIRTIO_VERSION = 0x2"

definition VIRTIO_DEV_BLK :: "32 word" where
  "VIRTIO_DEV_BLK = 0x2"

text \<open>
  Modelled from the spec: the constants of \<open>virtio.h\<close>, which is not among the source files.
  "Status bits: ACKNOWLEDGE=1, DRIVER=2, DRIVER_OK=4, FEATURES_OK=8", "Descriptor flags:
  NEXT=1, WRITE=2", "sector size = 512, \<open>VIRTIO_BLK_T_IN = 0\<close>, header+footer sizes per the
  virtio spec (16 + 1 bytes respectively)".
\<close>

definition VIRTIO_STATUS_ACKNOWLEDGE :: "32 word" where
  "VIRTIO_STATUS_ACKNOWLEDGE = 1"

definition VIRTIO_STATUS_DRIVER :: "32 word" where
  "VIRTIO_STATUS_DRIVER = 2"

definition VIRTIO_STATUS_DRIVER_OK :: "32 word" where
  "VIRTIO_STATUS_DRIVER_OK = 4"

definition VIRTIO_STATUS_FEATURES_OK :: "32 word" where
  "VIRTIO_STATUS_FEATURES_OK = 8"

definition VIRTQ_DESC_F_NEXT :: "16 word" where
  "VIRTQ_DESC_F_NEXT = 1"

definition VIRTQ_DESC_F_WRITE :: "16 word" where
  "VIRTQ_DESC_F_WRITE = 2"

definition VIRTIO_BLK_SECTOR_SIZE :: "32 word" where
  "VIRTIO_BLK_SECTOR_SIZE = 512"

definition VIRTIO_BLK_T_IN :: "32 word" where
  "VIRTIO_BLK_T_IN = 0"

definition VIRTIO_BLK_REQ_HEADER_SIZE :: "32 word" where
  "VIRTIO_BLK_REQ_HEADER_SIZE = 16"

definition VIRTIO_BLK_REQ_FOOTER_SIZE :: "32 word" where
  "VIRTIO_BLK_REQ_FOOTER_SIZE = 1"

subsection \<open>Virtqueue layout\<close>

text \<open>
  Modelled from the spec: the macro \<open>ALIGN\<close> is defined in \<open>kernel.h\<close>, not among the source
  files; the spec's regions are "aligned to 2" and "aligned to 4": the offset is rounded up
  to the next multiple. The arithmetic is that of \<open>uint32_t\<close>.
\<close>

definition ALIGN :: "32 word \<Rightarrow> 32 word \<Rightarrow> 32 word" where
  "ALIGN x a = ((x + (a - 1)) div a) * a"

text \<open>
  The sizes that \<open>virtq_create\<close> takes with \<open>sizeof\<close>. \<open>struct virtqueue\<close> has the seven
  members that \<open>virtq_create\<close> assigns, two \<open>uint32_t\<close> and five pointers, which on this
  target are 32 bits wide (the function casts the \<open>uint32_t page_virt\<close> to them): 28 bytes.
  Modelled from the spec: the ring structures are declared in \<open>virtio.h\<close>; a descriptor is
  "{guest-physical addr (64b), length (32b), flags (16b), next (16b)}", the avail and used
  rings start with "{flags (16b), idx (16b)", and a used element is "{id (32b), len (32b)}".
\<close>

definition sizeof_virtqueue :: "32 word" where
  "sizeof_virtqueue = 7 * 4"

definition sizeof_virtqueue_desc :: "32 word" where
  "sizeof_virtqueue_desc = 16"

definition sizeof_virtqueue_avail :: "32 word" where
  "sizeof_virtqueue_avail = 4"

definition sizeof_virtqueue_used :: "32 word" where
  "sizeof_virtqueue_used = 4"

definition sizeof_virtqueue_used_elem :: "32 word" where
  "sizeof_virtqueue_used_elem = 8"

definition sizeof_uint16_t :: "32 word" where
  "sizeof_uint16_t = 2"

record virtq_layout =
  off_desc :: "32 word"
  off_avail :: "32 word"
  off_used_event :: "32 word"
  off_used :: "32 word"
  off_avail_event :: "32 word"
  memsize :: "32 word"

text \<open>The offsets computed at the head of \<open>virtq_create\<close>.\<close>

definition virtq_offsets :: "32 word \<Rightarrow> virtq_layout" where
  "virtq_offsets n =
     (let od = ALIGN sizeof_virtqueue 16;
          oa = ALIGN (od + n * sizeof_virtqueue_desc) 2;
          oue = oa + sizeof_virtqueue_avail + n * sizeof_uint16_t;
          ou = ALIGN (oue + sizeof_uint16_t) 4;
          oae = ou + sizeof_virtqueue_used + n * sizeof_virtqueue_used_elem
      in \<lparr>off_desc = od, off_avail = oa, off_used_event = oue, off_used = ou,
          off_avail_event = oae, memsize = oae + sizeof_uint16_t\<rparr>)"

definition virtq_create :: "venv \<Rightarrow> 'd vstate \<Rightarrow> 32 word \<Rightarrow> virtqueue option \<times> 'd vstate" where
  "virtq_create E V n =
     (let lay = virtq_offsets n;
          V1 = printf V ''virtq_create: len=%u memsize=0x%x'' [] [n, memsize lay]
      in if memsize lay > PAGE_SIZE E
         then (None, printf V1 ''virtq_create: error, too big for a page'' [] [])
         else (Some ((page E)\<lparr>vq_addr := page_virt E, vq_phys := page_phys E, vq_len := n,
                        vq_desc := page_virt E + off_desc lay,
                        vq_avail := page_virt E + off_avail lay,
                        vq_used_event := page_virt E + off_used_event lay,
                        vq_used := page_virt E + off_used lay,
                        vq_avail_event := page_virt E + off_avail_event lay,
                        avail_idx := 0, used_idx := 0\<rparr>), V1))"

text \<open>The memory barrier \<open>mb()\<close> orders accesses; in this sequential model it does nothing.\<close>

definition virtq_add_to_device :: "'d device \<Rightarrow> 'd vstate \<Rightarrow> virtqueue \<Rightarrow> 32 word \<Rightarrow> 'd vstate" where
  "virtq_add_to_device D V virtq queue_sel =
     (let V = WRITE32 D V QueueSel queue_sel;
          V = WRITE32 D V QueueNum (vq_len virtq);
          V = WRITE32 D V QueueDescLow (vq_phys virtq + (vq_desc virtq - vq_addr virtq));
          V = WRITE32 D V QueueDescHigh 0;
          V = WRITE32 D V QueueAvailLow (vq_phys virtq + (vq_avail virtq - vq_addr virtq));
          V = WRITE32 D V QueueAvailHigh 0;
          V = WRITE32 D V QueueUsedLow (vq_phys virtq + (vq_used virtq - vq_addr virtq));
          V = WRITE32 D V QueueUsedHigh 0
      in WRITE32 D V QueueReady 1)"

subsection \<open>Feature negotiation\<close>

record virtio_cap =
  cap_name :: string
  cap_bit :: "32 word"
  cap_support :: bool
  cap_help :: string

definition indp_caps :: "virtio_cap list" where
  "indp_caps =
     [\<lparr>cap_name = ''VIRTIO_F_RING_INDIRECT_DESC'', cap_bit = push_bit 28 1, cap_support = False,
       cap_help = ''Negotiating this feature indicates that the driver can use descriptors with the VIRTQ_DESC_F_INDIRECT flag set, as described in 2.4.5.3 Indirect Descriptors.''\<rparr>,
      \<lparr>cap_name = ''VIRTIO_F_RING_EVENT_IDX'', cap_bit = push_bit 29 1, cap_support = False,
       cap_help = ''This feature enables the used_event and the avail_event fields as described in 2.4.7 and 2.4.8.''\<rparr>]"

definition blk_caps :: "virtio_cap list" where
  "blk_caps =
     [\<lparr>cap_name = ''VIRTIO_BLK_F_SIZE_MAX'', cap_bit = push_bit 1 1, cap_support = False,
       cap_help = ''Maximum size of any single segment is in size_max.''\<rparr>,
      \<lparr>cap_name = ''VIRTIO_BLK_F_SEG_MAX'', cap_bit = push_bit 2 1, cap_support = False,
       cap_help = ''Maximum number of segments in a request is in seg_max.''\<rparr>,
      \<lparr>cap_name = ''VIRTIO_BLK_F_GEOMETRY'', cap_bit = push_bit 4 1, cap_support = False,
       cap_help = ''Disk-style geometry specified in geometry.''\<rparr>,
      \<lparr>cap_name = ''VIRTIO_BLK_F_RO'', cap_bit = push_bit 5 1, cap_support = False,
       cap_help = ''Device is read-only.''\<rparr>,
      \<lparr>cap_name = ''VIRTIO_BLK_F_BLK_SIZE'', cap_bit = push_bit 6 1, cap_support = False,
       cap_help = ''Block size of disk is in blk_size.''\<rparr>,
      \<lparr>cap_name = ''VIRTIO_BLK_F_FLUSH'', cap_bit = push_bit 9 1, cap_support = False,
       cap_help = ''Cache flush command support.''\<rparr>,
      \<lparr>cap_name = ''VIRTIO_BLK_F_TOPOLOGY'', cap_bit = push_bit 10 1, cap_support = False,
       cap_help = ''Device exports information on optimal I/O alignment.''\<rparr>,
      \<lparr>cap_name = ''VIRTIO_BLK_F_CONFIG_WCE'', cap_bit = push_bit 11 1, cap_support = False,
       cap_help = ''Device can toggle its cache between writeback and writethrough modes.''\<rparr>]"

text \<open>
  \<open>virtio_check_capabilities\<close> walks a table; \<open>*device\<close> and \<open>*request\<close> are passed through.
\<close>

fun virtio_check_capabilities ::
  "'d vstate \<Rightarrow> 32 word \<Rightarrow> 32 word \<Rightarrow> virtio_cap list \<Rightarrow> 'd vstate \<times> 32 word \<times> 32 word" where
  "virtio_check_capabilities V device request [] = (V, device, request)"
| "virtio_check_capabilities V device request (cap # caps) =
     (if device AND cap_bit cap \<noteq> 0 then
        (if cap_support cap
         then virtio_check_capabilities V (device AND NOT (cap_bit cap)) (request OR cap_bit cap) caps
         else virtio_check_capabilities
                (printf V ''virtio supports unsupported option %s (%s)'' [cap_name cap, cap_help cap] [])
                (device AND NOT (cap_bit cap)) request caps)
      else virtio_check_capabilities V (device AND NOT (cap_bit cap)) request caps)"

subsection \<open>Block device initialisation\<close>

text \<open>
  The first half of \<open>virtio_blk_init\<close>: the feature words are selected, the device's
  features are read and checked against the two tables, the request is written to
  \<open>DriverFeatures\<close> and \<open>FEATURES_OK\<close> is or-ed into \<open>Status\<close>.
\<close>

definition virtio_blk_negotiate :: "'d device \<Rightarrow> 'd vstate \<Rightarrow> 'd vstate" where
  "virtio_blk_negotiate D V =
     (let V = WRITE32 D V DeviceFeaturesSel 0;
          V = WRITE32 D V DriverFeaturesSel 0;
          (V, DeviceFeatures', request_features) =
             virtio_check_capabilities V (READ32 D V DeviceFeatures) 0 blk_caps;
          (V, DeviceFeatures', request_features) =
             virtio_check_capabilities V DeviceFeatures' request_features indp_caps;
          V = (if DeviceFeatures' \<noteq> 0
               then printf V ''virtio supports undocumented options 0x%x!'' [] [DeviceFeatures']
               else V);
          V = WRITE32 D V DriverFeatures request_features
      in WRITE32 D V Status (READ32 D V Status OR VIRTIO_STATUS_FEATURES_OK))"

definition maybe_init_blkreq_slab :: "'d vstate \<Rightarrow> 'd vstate" where
  "maybe_init_blkreq_slab V = (if \<not> blkreq_slab V then V\<lparr>blkreq_slab := True\<rparr> else V)"

text \<open>
  \<open>virtio_blk_init\<close>. The function returns \<open>-1\<close> when the features are refused and otherwise
  runs off its end without a \<open>return\<close> statement; it hands the result of \<open>virtq_create\<close> to
  \<open>virtq_add_to_device\<close> unchecked, which reads through it.
\<close>

definition virtio_blk_init ::
  "'d device \<Rightarrow> venv \<Rightarrow> 'd vstate \<Rightarrow> 32 word \<Rightarrow> 32 word \<Rightarrow> outcome \<times> 'd vstate" where
  "virtio_blk_init D E V0 regs intid =
     (let V = virtio_blk_negotiate D V0 in
      if READ32 D V Status AND VIRTIO_STATUS_FEATURES_OK = 0
      then (Returns (- 1), printf V ''error: virtio-blk did not accept our features'' [] [])
      else
        (let V = printf V ''virtio-blk has 0x%x %x sectors'' []
                   [READ32 D V ConfigCapacityHigh, READ32 D V ConfigCapacityLow];
             V = printf V ''virtio-blk queuenummax %u'' [] [READ32 D V QueueNumMax];
             V = printf V ''virtio-blk Status %x'' [] [READ32 D V Status];
             V = printf V ''virtio-blk InterruptStatus %x'' [] [READ32 D V InterruptStatus]
         in case virtq_create E V 128 of
              (None, V) \<Rightarrow> (NullDeref, V)
            | (Some virtq, V) \<Rightarrow>
                (let V = virtq_add_to_device D V virtq 0;
                     V = printf V ''    avail.idx = %u'' [] [ucast (avail_idx virtq)];
                     V = printf V ''    used.idx = %u'' [] [ucast (used_idx virtq)];
                     V = V\<lparr>gic_enabled := gic_enabled V @ [intid]\<rparr>;
                     V = V\<lparr>blkdev := \<lparr>blk_regs = regs, blk_virtq = Some virtq, blk_intid = intid\<rparr>\<rparr>;
                     V = WRITE32 D V Status (READ32 D V Status OR VIRTIO_STATUS_DRIVER_OK);
                     V = printf V ''virtio-blk Status %x'' [] [READ32 D V Status];
                     V = maybe_init_blkreq_slab V;
                     V = printf V ''virtio-blk 0x%x (intid %u): ready!'' [] [regs_phys E, intid]
                 in (NoReturnValue, V))))"

subsection \<open>Read submission\<close>

text \<open>
  \<open>virtio_blk_read\<close> on the global \<open>blkdev\<close>. \<open>hdr_phys\<close> and \<open>data_phys\<close> are what
  \<open>kmem_lookup_phys\<close> returns for the request header taken from the slab and for the data
  buffer. The function has no \<open>return\<close> statement.
\<close>

definition virtio_blk_read ::
  "'d device \<Rightarrow> 'd vstate \<Rightarrow> 32 word \<Rightarrow> 32 word \<Rightarrow> 32 word \<Rightarrow> outcome \<times> 'd vstate" where
  "virtio_blk_read D V hdr_phys data_phys sector =
     (case blk_virtq (blkdev V) of
        None \<Rightarrow> (NullDeref, V\<lparr>blk_reqs := blk_reqs V @ [(hdr_phys, \<lparr>req_type = VIRTIO_BLK_T_IN, req_sector = ucast sector\<rparr>)]\<rparr>)
      | Some q \<Rightarrow>
          (let V = V\<lparr>blk_reqs := blk_reqs V @ [(hdr_phys, \<lparr>req_type = VIRTIO_BLK_T_IN, req_sector = ucast sector\<rparr>)]\<rparr>;
               q = q\<lparr>desc := (desc q)(0 := \<lparr>desc_addr = ucast hdr_phys, desc_len = VIRTIO_BLK_REQ_HEADER_SIZE,
                                               desc_flags = VIRTQ_DESC_F_NEXT, desc_next = 1\<rparr>)\<rparr>;
               q = q\<lparr>desc := (desc q)(1 := \<lparr>desc_addr = ucast (data_phys + 16), desc_len = VIRTIO_BLK_SECTOR_SIZE,
                                               desc_flags = VIRTQ_DESC_F_WRITE OR VIRTQ_DESC_F_NEXT, desc_next = 2\<rparr>)\<rparr>;
               q = q\<lparr>desc := (desc q)(2 := \<lparr>desc_addr = ucast (hdr_phys + VIRTIO_BLK_REQ_HEADER_SIZE),
                                               desc_len = VIRTIO_BLK_REQ_FOOTER_SIZE,
                                               desc_flags = VIRTQ_DESC_F_WRITE, desc_next = 0\<rparr>)\<rparr>;
               q = q\<lparr>avail_ring := (avail_ring q)(avail_idx q := 0)\<rparr>;
               q = q\<lparr>avail_idx := avail_idx q + 1\<rparr>;
               V = V\<lparr>blkdev := (blkdev V)\<lparr>blk_virtq := Some q\<rparr>\<rparr>
           in (NoReturnValue, WRITE32 D V QueueNotify 0)))"

subsection \<open>Device probe\<close>

text \<open>The handshake of \<open>virtio_dev_init\<close>: reset, then \<open>ACKNOWLEDGE\<close>, then \<open>DRIVER\<close>.\<close>

definition virtio_handshake :: "'d device \<Rightarrow> 'd vstate \<Rightarrow> 'd vstate" where
  "virtio_handshake D V =
     (let V = WRITE32 D V Status 0;
          V = WRITE32 D V Status (READ32 D V Status OR VIRTIO_STATUS_ACKNOWLEDGE)
      in WRITE32 D V Status (READ32 D V Status OR VIRTIO_STATUS_DRIVER))"

text \<open>
  \<open>virtio_dev_init\<close> for the register bank at \<open>virt\<close>. After a device id that is not the
  block device's the function prints and runs off its end.
\<close>

definition virtio_dev_init ::
  "'d device \<Rightarrow> venv \<Rightarrow> 'd vstate \<Rightarrow> 32 word \<Rightarrow> 32 word \<Rightarrow> outcome \<times> 'd vstate" where
  "virtio_dev_init D E V virt intid =
     (if READ32 D V MagicValue \<noteq> VIRTIO_MAGIC then
        (Returns (- 1),
         printf V ''error: virtio at 0x%x had wrong magic value 0x%x, expected 0x%x'' []
           [virt, READ32 D V MagicValue, VIRTIO_MAGIC])
      else if READ32 D V Version \<noteq> VIRTIO_VERSION then
        (Returns (- 1),
         printf V ''error: virtio at 0x%x had wrong version 0x%x, expected 0x%x'' []
           [virt, READ32 D V Version, VIRTIO_VERSION])
      else if READ32 D V DeviceID = 0 then (Returns (- 1), V)
      else
        (let V = virtio_handshake D V
         in if READ32 D V DeviceID = VIRTIO_DEV_BLK then virtio_blk_init D E V virt intid
            else (NoReturnValue,
                  printf V ''unsupported virtio device ID 0x%x'' [] [READ32 D V DeviceID])))"

section \<open>Checksum verification\<close>

text \<open>
  The sum that \<open>udp_send\<close> forms, formed again over the packet buffer once the checksum is
  stored: the pseudo-header (source address, destination address, protocol, UDP length) and
  as many 16-bit words from the transport cursor on as the length field, rounded up, asks
  for. For an odd length the last word takes its second byte from the buffer, after the end
  of the datagram. This is an auxiliary of the proofs.
\<close>

definition udp_csum_over_buffer :: "32 word \<Rightarrow> 32 word \<Rightarrow> packet \<Rightarrow> 16 word" where
  "udp_csum_over_buffer src_ip dst_ip pkt =
     (let nwords = (unat (ntohs (udp_len pkt)) + 1) div 2;
          pseudo = halves32 src_ip @ halves32 dst_ip @ [ntohs (ucast IPPROTO_UDP), udp_len pkt]
      in csum_finalize (csum_add csum_init (pseudo @ load16s (pkt_mem pkt) (pkt_tl pkt) nwords)))"

text \<open>
  The verification of the spec, "over pseudo-header + header + (zero-padded) payload": what
  a receiver computes that has the bytes of the datagram, as many as the length field says,
  and completes the last word with a zero byte when their number is odd. The datagram
  verifies when the result is zero.
\<close>

definition udp_csum_verify :: "32 word \<Rightarrow> 32 word \<Rightarrow> packet \<Rightarrow> 16 word" where
  "udp_csum_verify src_ip dst_ip pkt =
     udp_csum_over_buffer src_ip dst_ip
       (pkt\<lparr>pkt_mem := (\<lambda>a. if a < pkt_tl pkt + uint (ntohs (udp_len pkt)) then pkt_mem pkt a else 0)\<rparr>)"

section \<open>Concrete scenarios\<close>

text \<open>
  A kernel after \<open>udp_init\<close> in which no socket has been touched, the interface has
  address 10.0.2.15 and the ephemeral cursor has its initial value \<open>EPH_BEGIN\<close>.
\<close>

definition socket0 :: socket where
  "socket0 = \<lparr>src = \<lparr>sin_addr = 0, sin_port = 0\<rparr>, dst = \<lparr>sin_addr = 0, sin_port = 0\<rparr>,
               sk_bound = False, sk_connected = False, recvq = [], recvwait = []\<rparr>"

definition kstate0 :: kstate where
  "kstate0 = udp_init \<lparr>udp_hlist = (\<lambda>i. []), sockets = (\<lambda>s. socket0), pr_ready = (\<lambda>p. True),
                nif_ip = 0x0F02000A, eph_i = 20000, freed = [], console = [], ip_sent = []\<rparr>"

definition consts0 :: kconsts where
  "consts0 = \<lparr>sizeof_sockaddr_in = 16, MAX_ETH_PKT_SIZE = 1514, ip_reserve = 34\<rparr>"

text \<open>The address a user passes to bind to port \<open>p\<close> on any interface.\<close>

definition inaddr_any :: "16 word \<Rightarrow> sockaddr_in" where
  "inaddr_any p = \<lparr>sin_addr = 0, sin_port = htons p\<rparr>"

text \<open>The kernel after socket 1 has been bound to port \<open>p\<close> by \<open>udp_bind\<close>.\<close>

definition bound_at :: "kconsts \<Rightarrow> 16 word \<Rightarrow> kstate" where
  "bound_at C p = snd (udp_bind C kstate0 1 (Some (inaddr_any p)) (sizeof_sockaddr_in C))"

text \<open>The kernel after socket 2 has been connected to 10.0.2.2, port 53, by \<open>udp_connect\<close>.\<close>

definition connected0 :: kstate where
  "connected0 = snd (udp_connect consts0 kstate0 2
                      (Some \<lparr>sin_addr = 0x0202000A, sin_port = htons 53\<rparr>) 16)"

text \<open>
  A datagram for port \<open>p\<close> as the IP layer hands it to \<open>udp_recv\<close>: transport header at
  offset 0, two bytes of payload.
\<close>

definition dgram :: "16 word \<Rightarrow> packet" where
  "dgram p = \<lparr>pkt_mem = write16 (\<lambda>a. 0) 2 (htons p), pkt_data = 0, pkt_tl = 0, pkt_al = 0, pkt_end = 10\<rparr>"

text \<open>Socket 1 bound, with one datagram of two bytes in its receive queue.\<close>

definition queued :: kstate where
  "queued = kstate0\<lparr>sockets := (sockets kstate0)
               (1 := socket0\<lparr>sk_bound := True, recvq := [(dgram 5000)\<lparr>pkt_al := 8\<rparr>]\<rparr>)\<rparr>"

text \<open>A packet as \<open>packet_alloc\<close> returns it, and a user buffer holding the bytes 1, 2, 3, ...\<close>

definition packet0 :: packet where
  "packet0 = \<lparr>pkt_mem = (\<lambda>a. 0xAA), pkt_data = 64, pkt_tl = 0, pkt_al = 0, pkt_end = 0\<rparr>"

definition payload0 :: "nat \<Rightarrow> 8 word" where
  "payload0 i = of_nat (i + 1)"

text \<open>
  Devices whose state is the content of their registers: one keeps what is written, the
  other does not accept \<open>FEATURES_OK\<close> in its status register.
\<close>

definition dev_plain :: "(reg \<Rightarrow> 32 word) device" where
  "dev_plain = \<lparr>dev_read = (\<lambda>d r. d r), dev_write = (\<lambda>d r v. d(r := v))\<rparr>"

definition dev_refusing :: "(reg \<Rightarrow> 32 word) device" where
  "dev_refusing = \<lparr>dev_read = (\<lambda>d r. d r),
                    dev_write = (\<lambda>d r v. if r = Status then d(r := v AND NOT 8) else d(r := v))\<rparr>"

definition regs_blk :: "reg \<Rightarrow> 32 word" where
  "regs_blk = (\<lambda>r. 0)(MagicValue := 0x74726976, Version := 2, DeviceID := 2)"

definition vq0 :: virtqueue where
  "vq0 = \<lparr>vq_phys = 0, vq_len = 0, vq_desc = 0, vq_avail = 0, vq_used_event = 0, vq_used = 0,
          vq_avail_event = 0, vq_addr = 0,
          desc = (\<lambda>i. \<lparr>desc_addr = 0, desc_len = 0, desc_flags = 0, desc_next = 0\<rparr>),
          avail_idx = 7, avail_ring = (\<lambda>i. 0xFFFF), used_idx = 7\<rparr>"

definition env0 :: venv where
  "env0 = \<lparr>PAGE_SIZE = 4096, page_phys = 0x40100000, page_virt = 0xC0100000, page = vq0,
           regs_phys = 0x0A000000\<rparr>"

definition vstate0 :: "(reg \<Rightarrow> 32 word) \<Rightarrow> (reg \<Rightarrow> 32 word) vstate" where
  "vstate0 d = \<lparr>dev = d, mmio_log = [], vconsole = [],
                blkdev = \<lparr>blk_regs = 0, blk_virtq = None, blk_intid = 0\<rparr>,
                blkreq_slab = False, gic_enabled = [], blk_reqs = []\<rparr>"

text \<open>A driver whose \<open>blkdev\<close> has a virtqueue, as after a successful \<open>virtio_blk_init\<close>.\<close>

definition vstate_blk :: "(reg \<Rightarrow> 32 word) vstate" where
  "vstate_blk = (vstate0 regs_blk)\<lparr>blkdev := \<lparr>blk_regs = 0xC0200000, blk_virtq = Some vq0, blk_intid = 48\<rparr>,
                                    blkreq_slab := True\<rparr>"

section \<open>Auxiliary facts\<close>

lemmas udp_defs = udp_bind_def copy_from_user_def lookup_entry_def htons_def ntohs_def udp_hash_def
  UDP_HLIST_SIZE_def udp_do_bind_def hlist_insert_def kstate0_def socket0_def inaddr_any_def
  udp_init_def bound_at_def


lemma ntohs_htons: "ntohs (htons x) = x"
  unfolding ntohs_def htons_def
  apply (rule bit_word_eqI)
  apply (auto simp add: bit_simps)
  done

lemma udp_bind_to_ephemeral_unfold:
  "udp_bind_to_ephemeral K s =
     (let prev = eph_i K;
          K1 = K\<lparr>eph_i := (if prev = 65535 then 20000 else prev + 1)\<rparr>
      in if lookup_entry K1 (htons prev) = None
         then (True, udp_do_bind K1 s \<lparr>sin_addr = 0, sin_port = htons prev\<rparr>)
         else udp_bind_to_ephemeral_loop 99 K1 s)"
proof -
  have "(100::nat) = Suc 99" by simp
  then show ?thesis
    unfolding udp_bind_to_ephemeral_def by (simp only: udp_bind_to_ephemeral_loop.simps)
qed

lemma udp_do_bind_logs:
  "freed (udp_do_bind K s a) = freed K" "ip_sent (udp_do_bind K s a) = ip_sent K"
  "console (udp_do_bind K s a) = console K"
  by (simp_all add: udp_do_bind_def Let_def)

lemma udp_do_bind_bound:
  "sk_bound (sockets (udp_do_bind K s a) s)" "src (sockets (udp_do_bind K s a) s) = a"
  by (simp_all add: udp_do_bind_def Let_def)

lemma udp_do_bind_entry:
  "\<lparr>sock = Some s, proc = None, rcv = None, port = ntohs (sin_port a)\<rparr>
     \<in> set (udp_hlist (udp_do_bind K s a) (udp_hash (ntohs (sin_port a))))"
  by (simp add: udp_do_bind_def Let_def hlist_insert_def)

text \<open>
  A successful run of the ephemeral allocator leaves the socket bound, with its entry in
  the table, and touches none of the logs.
\<close>

lemma ephemeral_loop_bound:
  "udp_bind_to_ephemeral_loop n K s = (True, K') \<Longrightarrow>
     sk_bound (sockets K' s) \<and> freed K' = freed K \<and> ip_sent K' = ip_sent K \<and> console K' = console K \<and>
     \<lparr>sock = Some s, proc = None, rcv = None, port = ntohs (sin_port (src (sockets K' s)))\<rparr>
        \<in> set (udp_hlist K' (udp_hash (ntohs (sin_port (src (sockets K' s))))))"
proof (induction n arbitrary: K)
  case 0
  then show ?case by simp
next
  case (Suc n)
  let ?K1 = "K\<lparr>eph_i := (if eph_i K = 65535 then 20000 else eph_i K + 1)\<rparr>"
  let ?a = "\<lparr>sin_addr = 0, sin_port = htons (eph_i K)\<rparr>"
  show ?case
  proof (cases "lookup_entry ?K1 (htons (eph_i K)) = None")
    case True
    with Suc.prems have K': "K' = udp_do_bind ?K1 s ?a" by (simp add: Let_def)
    show ?thesis
      unfolding K' using udp_do_bind_entry [of s ?a ?K1]
      by (simp add: udp_do_bind_logs udp_do_bind_bound)
  next
    case False
    with Suc.prems have "udp_bind_to_ephemeral_loop n ?K1 s = (True, K')" by (simp add: Let_def)
    from Suc.IH [OF this] show ?thesis by simp
  qed
qed

section \<open>Binding\<close>

text \<open>
  C1. The claim: when an entry for port p is in the endpoint table, \<open>udp_bind\<close> of another
  socket to p fails with \<open>EADDRINUSE\<close> and changes nothing; of two consecutive binds to port
  5000 the second returns \<open>EADDRINUSE\<close>. The code does otherwise: \<open>udp_bind\<close> looks the port
  up as the user passed it, in network byte order, while \<open>udp_do_bind\<close> stores it in host
  byte order. Starting from the empty table, socket 1 binds to port 5000, an entry for port
  5000 is then in the table, and the bind of socket 2 to port 5000 returns 0 as well and
  puts a second entry for port 5000 into the same chain.
\<close>

theorem udp_bind_same_port_twice:
  "fst (udp_bind C kstate0 1 (Some (inaddr_any 5000)) (sizeof_sockaddr_in C)) = Inr 0 \<and>
   lookup_entry (bound_at C 5000) 5000 \<noteq> None \<and>
   fst (udp_bind C (bound_at C 5000) 2 (Some (inaddr_any 5000)) (sizeof_sockaddr_in C)) = Inr 0 \<and>
   map (\<lambda>e. (sock e, port e))
     (udp_hlist (snd (udp_bind C (bound_at C 5000) 2 (Some (inaddr_any 5000)) (sizeof_sockaddr_in C)))
        (udp_hash 5000))
     = [(Some 2, 5000), (Some 1, 5000)]"
  by (simp add: udp_defs)

text \<open>
  What the check of \<open>udp_bind\<close> does reject: a port whose value as passed, in network byte
  order, is the host-order port of an entry.
\<close>

lemma udp_bind_inuse:
  assumes "\<not> sk_bound (sockets K s)"
    and "sin_addr a = 0 \<or> sin_addr a = nif_ip K"
    and "lookup_entry K (sin_port a) \<noteq> None"
  shows "udp_bind C K s (Some a) (sizeof_sockaddr_in C) = (Inl EADDRINUSE, K)"
  using assms by (auto simp add: udp_bind_def copy_from_user_def)

section \<open>Receiving from the network\<close>

text \<open>
  C2. The claim: \<open>udp_recv\<close> queues the packet on a socket-bound entry that matches the
  packet's destination port, or hands it to a waiter for that port, or frees it with a
  diagnostic. The code does otherwise for socket-bound entries: the walk compares the port
  of waiters only, and the first socket-bound entry of the chain takes the packet whatever
  its port. With socket 1 bound to port 5000, a datagram for port 5128 (the same chain, 5128
  = 5000 + 128) is appended to the receive queue of socket 1; nothing is freed and nothing
  is printed.
\<close>

theorem udp_recv_other_port:
  "ntohs (udp_dst_port (dgram 5128)) = 5128 \<and>
   map (\<lambda>e. (sock e, port e)) (udp_hlist (bound_at C 5000) (udp_hash 5128)) = [(Some 1, 5000)] \<and>
   recvq (sockets (udp_recv (bound_at C 5000) (dgram 5128)) 1) = [(dgram 5128)\<lparr>pkt_al := 8\<rparr>] \<and>
   freed (udp_recv (bound_at C 5000) (dgram 5128)) = [] \<and>
   console (udp_recv (bound_at C 5000) (dgram 5128)) = []"
  by (simp add: udp_defs udp_recv_def dgram_def udp_dst_port_def read16_def write16_def sizeof_udphdr_def
        list_insert_end_def wait_list_awaken_def)

section \<open>Ephemeral ports\<close>

text \<open>
  C3. The claim: the port bound by the ephemeral allocator lies in [20000, 65535] and is not
  in the endpoint table at the time of binding. The code does otherwise: the allocator
  probes the table with \<open>htons\<close> of the candidate, while the table holds ports in host byte
  order, so a candidate that is taken is not found. With socket 1 bound to port 20000 and
  the cursor at 20000, the allocator binds socket 2 to port 20000 too: the chain then holds
  two entries for that port.
\<close>

theorem udp_bind_to_ephemeral_duplicate:
  "lookup_entry (bound_at C 20000) 20000 \<noteq> None \<and>
   fst (udp_bind_to_ephemeral (bound_at C 20000) 2) \<and>
   map (\<lambda>e. (sock e, port e))
     (udp_hlist (snd (udp_bind_to_ephemeral (bound_at C 20000) 2)) (udp_hash 20000))
     = [(Some 2, 20000), (Some 1, 20000)] \<and>
   src (sockets (snd (udp_bind_to_ephemeral (bound_at C 20000) 2)) 2) = inaddr_any 20000"
  by (simp add: udp_bind_to_ephemeral_unfold udp_defs)

text \<open>
  What holds of the allocator: the cursor stays in [20000, 65535], the port bound is a
  former value of the cursor, and when none of the 100 probes finds its bucket free of the
  probed value the call fails and \<open>udp_sys_send\<close> returns \<open>EADDRINUSE\<close>.
\<close>

lemma eph_next_range:
  fixes i :: "16 word"
  assumes "20000 \<le> i"
  shows "20000 \<le> (if i = 65535 then 20000 else i + 1)"
proof (cases "i = 65535")
  case True
  then show ?thesis by simp
next
  case False
  moreover have "(- 1 :: 16 word) = 65535" by simp
  ultimately have "i \<noteq> - 1" by (simp only:) simp
  then have "\<not> i + 1 \<le> i" by (simp add: inc_less_eq_self_iff_eq)
  then have "i \<le> i + 1" by simp
  with assms have "20000 \<le> i + 1" by (rule order_trans)
  then show ?thesis using False by simp
qed

lemma ephemeral_loop_range:
  "udp_bind_to_ephemeral_loop n K s = (b, K') \<Longrightarrow> 20000 \<le> eph_i K \<Longrightarrow>
     20000 \<le> eph_i K' \<and> (b \<longrightarrow> 20000 \<le> ntohs (sin_port (src (sockets K' s))))"
proof (induction n arbitrary: K)
  case 0
  then show ?case by auto
next
  case (Suc n)
  let ?K1 = "K\<lparr>eph_i := (if eph_i K = 65535 then 20000 else eph_i K + 1)\<rparr>"
  have c: "20000 \<le> eph_i ?K1" using eph_next_range [OF Suc.prems(2)] by simp
  show ?case
  proof (cases "lookup_entry ?K1 (htons (eph_i K)) = None")
    case True
    with Suc.prems(1) have "b" "K' = udp_do_bind ?K1 s \<lparr>sin_addr = 0, sin_port = htons (eph_i K)\<rparr>"
      by (simp_all add: Let_def)
    then show ?thesis
      using c Suc.prems(2) by (simp add: udp_do_bind_def Let_def ntohs_htons)
  next
    case False
    with Suc.prems(1) have "udp_bind_to_ephemeral_loop n ?K1 s = (b, K')" by (simp add: Let_def)
    from Suc.IH [OF this c] show ?thesis .
  qed
qed

lemma udp_sys_send_exhausted:
  assumes "\<not> word_of_int (udp_reserve C) + len > MAX_ETH_PKT_SIZE C"
    and "sk_connected (sockets K s)" and "\<not> sk_bound (sockets K s)"
    and "\<not> fst (udp_bind_to_ephemeral K s)"
  shows "fst (udp_sys_send C K s data len fresh) = Inl EADDRINUSE"
  using assms by (cases "udp_bind_to_ephemeral K s") (simp add: udp_sys_send_def Let_def)

section \<open>Sending\<close>

subsection \<open>Arithmetic of the checksum accumulator\<close>

lemma unat_lt16: "unat (w :: 16 word) < 65536"
  using unsigned_less [of w] by simp

lemma unat_lt32: "unat (w :: 32 word) < 4294967296"
  using unsigned_less [of w] by simp

lemma unat_not16: "unat (NOT (w :: 16 word)) = 65535 - unat w"
proof -
  have e: "NOT w = 65535 - w" by (simp add: not_eq_complement)
  have "w \<le> 65535" using unat_lt16 [of w] by (simp add: word_le_nat_alt)
  then show ?thesis unfolding e by (simp add: unat_sub)
qed

lemma unat_ucast_down: "unat (c :: 32 word) < 65536 \<Longrightarrow> unat (ucast c :: 16 word) = unat c"
  by (simp add: unsigned_ucast_eq take_bit_eq_mod)

lemma unat_ucast_up: "unat (ucast (w :: 16 word) :: 32 word) = unat w"
  using unat_lt16 [of w] by (simp add: unsigned_ucast_eq take_bit_eq_mod)

text \<open>The accumulator holds the sum of the words added, modulo \<open>2 ^ 32\<close>.\<close>

lemma unat_csum_add:
  "unat (csum_add c ws) = (unat c + sum_list (map unat ws)) mod 4294967296"
proof (induction ws arbitrary: c)
  case Nil
  show ?case using unat_lt32 [of c] by simp
next
  case (Cons w ws)
  have "unat (c + ucast w) = (unat c + unat w) mod 4294967296"
    by (simp add: unat_word_ariths unat_ucast_up)
  then show ?case
    by (simp add: Cons.IH mod_add_left_eq add.assoc)
qed

lemma csum_add_append: "csum_add c (xs @ ys) = csum_add (csum_add c xs) ys"
  by (induction xs arbitrary: c) simp_all

lemma csum_add_value_eq: "csum_add_value c v = csum_add c [v]"
  by (simp add: csum_add_value_def)

lemma sum16_bound: "sum_list (map unat (ws :: 16 word list)) \<le> length ws * 65535"
proof (induction ws)
  case Nil
  show ?case by simp
next
  case (Cons w ws)
  then show ?case using unat_lt16 [of w] by simp
qed

text \<open>
  Folding the carries back computes the residue modulo 65535, taken in 1..65535 for a sum
  that is not zero.
\<close>

lemma unat_csum_fold:
  "unat (csum_fold c) = (if unat c = 0 then 0 else (unat c - 1) mod 65535 + 1)"
proof (induction c rule: csum_fold.induct)
  case (1 c)
  have d: "unat (drop_bit 16 c) = unat c div 65536"
    by (simp add: unat_drop_bit_eq drop_bit_eq_div unat_div)
  have t: "unat (take_bit 16 c) = unat c mod 65536"
    by (simp add: unsigned_take_bit_eq take_bit_eq_mod unat_mod)
  show ?case
  proof (cases "drop_bit 16 c = 0")
    case True
    then have "unat c div 65536 = 0" using d by simp
    then have lt: "unat c < 65536" by (simp add: div_eq_0_iff)
    have "csum_fold c = c" using True by simp
    moreover have "unat c \<noteq> 0 \<Longrightarrow> (unat c - 1) mod 65535 = unat c - 1"
      using lt by (intro mod_less) linarith
    ultimately show ?thesis by auto
  next
    case False
    define q r where "q = unat c div 65536" and "r = unat c mod 65536"
    have q: "0 < q" using False d unfolding q_def by (metis unat_eq_0 neq0_conv)
    have r: "r < 65536" unfolding r_def by simp
    have x: "unat c = 65536 * q + r" unfolding q_def r_def by simp
    have lt: "unat c < 4294967296" by (rule unat_lt32)
    have "unat (take_bit 16 c + drop_bit 16 c) = (r + q) mod 4294967296"
      by (simp add: unat_word_ariths d t q_def r_def)
    also have "\<dots> = r + q" using lt x by (intro mod_less) linarith
    finally have n: "unat (take_bit 16 c + drop_bit 16 c) = r + q" .
    have step: "csum_fold c = csum_fold (take_bit 16 c + drop_bit 16 c)"
      using False by (subst csum_fold.simps) simp
    have "unat c - 1 = (r + q - 1) + q * 65535" using x q by linarith
    then have "(unat c - 1) mod 65535 = (r + q - 1) mod 65535" by simp
    moreover have "unat c \<noteq> 0" "r + q \<noteq> 0" using x q by linarith+
    ultimately show ?thesis using "1.IH" [OF False] n step by simp
  qed
qed

lemma unat_csum_fold_le: "unat (csum_fold c) < 65536"
proof -
  have "(unat c - 1) mod 65535 < 65535" by simp
  then show ?thesis unfolding unat_csum_fold by simp
qed

lemma csum_finalize_zero:
  assumes "(unat c - 1) mod 65535 = 65534" and "unat c \<noteq> 0"
  shows "csum_finalize c = 0"
proof -
  have "unat (csum_fold c) = (unat c - 1) mod 65535 + 1"
    using assms(2) by (simp only: unat_csum_fold if_False)
  then have "unat (csum_fold c) = 65535" unfolding assms(1) by simp
  then have "unat (ucast (csum_fold c) :: 16 word) = 65535" by (simp add: unat_ucast_down)
  then have "unat (csum_finalize c) = 0" by (simp add: csum_finalize_def unat_not16)
  then show ?thesis by (simp add: unat_eq_0)
qed

lemma unat_csum_finalize: "unat (csum_finalize c) = 65535 - unat (csum_fold c)"
proof -
  have "unat (ucast (csum_fold c) :: 16 word) = unat (csum_fold c)"
    by (rule unat_ucast_down) (rule unat_csum_fold_le)
  then show ?thesis unfolding csum_finalize_def unat_not16 by (rule arg_cong)
qed

text \<open>
  The property of the one's-complement checksum: when the words are summed with a zero in
  the place of the checksum, and the finalized sum is put in that place, the words sum to
  a value that finalizes to zero. The accumulator must not wrap around.
\<close>

lemma csum_verifies:
  assumes k: "k < length xs" and z: "xs ! k = 0"
    and room: "unat c + length xs * 65535 < 4294967296"
  shows "csum_finalize (csum_add c (xs[k := csum_finalize (csum_add c xs)])) = 0"
proof -
  define S where "S = unat c + sum_list (map unat xs)"
  define v where "v = csum_finalize (csum_add c xs)"
  define f where "f = unat (csum_fold (csum_add c xs))"
  have Sb: "S < 4294967296" using sum16_bound [of xs] room unfolding S_def by linarith
  have T: "unat (csum_add c xs) = S" using Sb by (simp add: unat_csum_add S_def)
  have v: "unat v = 65535 - f"
    unfolding v_def f_def by (rule unat_csum_finalize)
  have "sum_list ((map unat xs)[k := unat v]) = sum_list (map unat xs) + unat v - map unat xs ! k"
    using k by (intro sum_list_update) simp
  then have upd: "sum_list (map unat (xs[k := v])) = sum_list (map unat xs) + unat v"
    using k z by (simp add: map_update)
  have len: "length (xs[k := v]) = length xs" by simp
  have "unat c + sum_list (map unat (xs[k := v])) < 4294967296"
    using sum16_bound [of "xs[k := v]"] room unfolding len by linarith
  then have T': "unat (csum_add c (xs[k := v])) = S + unat v"
    by (simp add: unat_csum_add upd S_def)
  have fS: "f = (if S = 0 then 0 else (S - 1) mod 65535 + 1)"
    unfolding f_def unat_csum_fold T ..
  have "(S + unat v - 1) mod 65535 = 65534 \<and> S + unat v \<noteq> 0"
  proof (cases "S = 0")
    case True
    then have "f = 0" using fS by simp
    then have "unat v = 65535" using v by simp
    then show ?thesis using True by simp
  next
    case False
    define a b where "a = (S - 1) div 65535" and "b = (S - 1) mod 65535"
    have b: "b < 65535" unfolding b_def by simp
    have S1: "S - 1 = a * 65535 + b" unfolding a_def b_def by simp
    have "f = b + 1"
      unfolding fS b_def using False by (simp only: if_False)
    then have "unat v = 65534 - b" using v by simp
    then have "S + unat v - 1 = 65534 + a * 65535" using S1 b False by linarith
    then have "(S + unat v - 1) mod 65535 = 65534 mod 65535" by (simp only: mod_mult_self1)
    then show ?thesis using False by simp
  qed
  then show ?thesis
    unfolding v_def [symmetric] using T' by (intro csum_finalize_zero) simp_all
qed

subsection \<open>Header fields in packet memory\<close>

lemma read16_write16_same: "read16 (write16 m a v) a = v"
  unfolding read16_def write16_def
  apply simp
  apply (rule bit_word_eqI)
  apply (auto simp add: bit_simps)
  done

lemma read16_write16_other:
  "b \<noteq> a \<Longrightarrow> b \<noteq> a + 1 \<Longrightarrow> b + 1 \<noteq> a \<Longrightarrow> read16 (write16 m a v) b = read16 m b"
  unfolding read16_def write16_def by simp

lemma length_load16s: "length (load16s m a n) = n"
  by (induction n arbitrary: a) simp_all

lemma nth_load16s: "k < n \<Longrightarrow> load16s m a n ! k = read16 m (a + 2 * int k)"
proof (induction n arbitrary: a k)
  case 0
  then show ?case by simp
next
  case (Suc n)
  show ?case
  proof (cases k)
    case 0
    then show ?thesis by simp
  next
    case (Suc j)
    with Suc.prems have "j < n" by simp
    from Suc.IH [OF this, of "a + 2"] show ?thesis using Suc by (simp add: algebra_simps)
  qed
qed

text \<open>Writing the checksum field changes the fourth word of the datagram and no other.\<close>

lemma load16s_write16:
  assumes "3 < n"
  shows "load16s (write16 m (a + 6) v) a n = (load16s m a n)[3 := v]"
proof (rule nth_equalityI)
  show "length (load16s (write16 m (a + 6) v) a n) = length ((load16s m a n)[3 := v])"
    by (simp add: length_load16s)
next
  fix k
  assume "k < length (load16s (write16 m (a + 6) v) a n)"
  then have k: "k < n" by (simp add: length_load16s)
  show "load16s (write16 m (a + 6) v) a n ! k = (load16s m a n)[3 := v] ! k"
  proof (cases "k = 3")
    case True
    then show ?thesis using assms
      by (simp add: nth_load16s length_load16s read16_write16_same)
  next
    case False
    have "read16 (write16 m (a + 6) v) (a + 2 * int k) = read16 m (a + 2 * int k)"
      using False by (intro read16_write16_other) presburger+
    then show ?thesis using False k
      by (simp add: nth_load16s length_load16s)
  qed
qed

lemma len_rounded_eq:
  fixes L :: int
  assumes "0 \<le> L" "L < 65536"
  shows "unat ((word_of_int L :: 32 word) div 2 + word_of_int L mod 2) = (nat L + 1) div 2"
proof -
  have u: "unat (word_of_int L :: 32 word) = nat L"
    using assms by (simp add: unsigned_of_int take_bit_int_eq_self)
  have lt: "nat L < 65536" using assms by linarith
  have a: "unat ((word_of_int L :: 32 word) div 2) = nat L div 2"
    by (simp add: unat_div u)
  have b: "unat ((word_of_int L :: 32 word) mod 2) = nat L mod 2"
    by (simp add: unat_mod u)
  have "unat ((word_of_int L :: 32 word) div 2 + word_of_int L mod 2)
          = (nat L div 2 + nat L mod 2) mod 4294967296"
    unfolding unat_word_ariths(1) a b by simp
  also have "\<dots> = nat L div 2 + nat L mod 2"
    using lt by (intro mod_less) linarith
  also have "\<dots> = (nat L + 1) div 2"
  proof -
    have "x div 2 + x mod 2 = (x + 1) div 2" for x :: nat by presburger
    then show ?thesis .
  qed
  finally show ?thesis .
qed

subsection \<open>The datagram that \<open>udp_send\<close> emits\<close>

lemma udp_send_datagram:
  assumes lo: "0 \<le> pkt_end pkt - pkt_al pkt" and hi: "pkt_end pkt - pkt_al pkt + 8 < 65536"
  shows "\<exists>p. ip_sent (udp_send K pkt src_ip dst_ip sp dp) = ip_sent K @ [(p, IPPROTO_UDP, src_ip, dst_ip)] \<and>
             pkt_tl p = pkt_al pkt - 8 \<and> pkt_al p = pkt_al pkt \<and> pkt_end p = pkt_end pkt \<and>
             uint (ntohs (udp_len p)) = pkt_end pkt - pkt_al pkt + 8 \<and>
             udp_src_port p = sp \<and> udp_dst_port p = dp \<and>
             udp_csum_over_buffer src_ip dst_ip p = 0 \<and>
             pkt_mem p (pkt_end pkt) = pkt_mem pkt (pkt_end pkt)"
proof -
  define t where "t = pkt_al pkt - 8"
  define L where "L = pkt_end pkt - t"
  have L: "0 \<le> L" "L < 65536" "8 \<le> L" using lo hi unfolding L_def t_def by linarith+
  define lenf where "lenf = htons (word_of_int L)"
  define n where "n = (nat L + 1) div 2"
  define m4 where "m4 = write16 (write16 (write16 (write16 (pkt_mem pkt) t sp) (t + 2) dp) (t + 4) lenf) (t + 6) 0"
  define pseudo where "pseudo = halves32 src_ip @ halves32 dst_ip @ [ntohs (ucast IPPROTO_UDP), lenf]"
  define cs where "cs = csum_finalize (csum_add csum_init (pseudo @ load16s m4 t n))"
  define p where "p = pkt\<lparr>pkt_tl := t, pkt_mem := write16 m4 (t + 6) cs\<rparr>"
  have n4: "3 < n" using L unfolding n_def by linarith
  have nb: "n \<le> 32768" using L unfolding n_def by linarith
  have r4: "read16 m4 (t + 4) = lenf"
    unfolding m4_def by (simp add: read16_write16_other read16_write16_same)
  have "load16s m4 (t + 4) 1 = [lenf]"
    using r4 by simp
  then have sent: "udp_send K pkt src_ip dst_ip sp dp = ip_send K p IPPROTO_UDP src_ip dst_ip"
    unfolding udp_send_def Let_def p_def cs_def pseudo_def m4_def lenf_def n_def t_def [symmetric]
      L_def [symmetric] sizeof_udphdr_def
    by (simp add: len_rounded_eq [OF L(1,2)] csum_add_value_eq csum_add_append t_def sizeof_udphdr_def)
  have len: "udp_len p = lenf"
    unfolding udp_len_def p_def using r4 by (simp add: read16_write16_other)
  have ulen: "uint (ntohs (udp_len p)) = L"
    unfolding len lenf_def ntohs_htons using L by (simp add: uint_word_of_int)
  then have nw: "(unat (ntohs lenf) + 1) div 2 = n"
    unfolding n_def len by (simp add: unat_eq_nat_uint)
  have sp: "udp_src_port p = sp"
    unfolding udp_src_port_def p_def m4_def by (simp add: read16_write16_other read16_write16_same)
  have dp: "udp_dst_port p = dp"
    unfolding udp_dst_port_def p_def m4_def by (simp add: read16_write16_other read16_write16_same)
  have z: "load16s m4 t n ! 3 = 0"
    using n4 unfolding m4_def by (simp add: nth_load16s read16_write16_same)
  have "udp_csum_over_buffer src_ip dst_ip p
          = csum_finalize (csum_add csum_init (pseudo @ (load16s m4 t n)[3 := cs]))"
    unfolding udp_csum_over_buffer_def Let_def len nw
    by (simp add: p_def pseudo_def load16s_write16 [OF n4])
  also have "pseudo @ (load16s m4 t n)[3 := cs] = (pseudo @ load16s m4 t n)[9 := cs]"
    by (simp add: pseudo_def halves32_def list_update_append)
  also have "csum_finalize (csum_add csum_init ((pseudo @ load16s m4 t n)[9 := cs])) = 0"
    unfolding cs_def
  proof (rule csum_verifies)
    show "9 < length (pseudo @ load16s m4 t n)"
      using n4 by (simp add: pseudo_def halves32_def length_load16s)
    show "(pseudo @ load16s m4 t n) ! 9 = 0"
      using z by (simp add: pseudo_def halves32_def nth_append)
    have "length (pseudo @ load16s m4 t n) = 6 + n"
      by (simp add: pseudo_def halves32_def length_load16s)
    then show "unat csum_init + length (pseudo @ load16s m4 t n) * 65535 < 4294967296"
      using nb by (simp add: csum_init_def)
  qed
  finally have v: "udp_csum_over_buffer src_ip dst_ip p = 0" .
  have fr: "pkt_mem p (pkt_end pkt) = pkt_mem pkt (pkt_end pkt)"
    using lo unfolding p_def m4_def t_def by (simp add: write16_def)
  show ?thesis
    using sent len ulen sp dp v fr unfolding L_def t_def
    by (intro exI [of _ p]) (simp add: ip_send_def p_def t_def)
qed

lemma sint_nonneg_uint:
  fixes w :: "32 word"
  assumes "0 \<le> sint w"
  shows "sint w = uint w" "uint w < 2147483648"
proof -
  have s: "sint w = signed_take_bit 31 (uint w)" by (simp add: sint_uint)
  have u: "uint w < 2147483648"
  proof (rule ccontr)
    assume "\<not> uint w < 2147483648"
    then have "(2::int) ^ 31 \<le> uint w" by simp
    then have "signed_take_bit 31 (uint w) \<le> uint w - 2 ^ Suc 31"
      by (rule signed_take_bit_int_less_eq)
    moreover have "uint w < 4294967296" using uint_lt2p [of w] by simp
    ultimately show False using assms s by simp
  qed
  then show "uint w < 2147483648" .
  have "- (2 ^ 31) \<le> (0::int)" by simp
  also have "0 \<le> uint w" by simp
  finally have "- (2 ^ 31) \<le> uint w" .
  moreover have "uint w < 2 ^ 31" using u by simp
  ultimately have "signed_take_bit 31 (uint w) = uint w"
    by (rule signed_take_bit_int_eq_self)
  then show "sint w = uint w" using s by simp
qed

text \<open>
  What a call of \<open>udp_sys_send\<close> that returns a non-negative value has handed to \<open>ip_send\<close>.
  The byte of the buffer that follows the payload is as \<open>packet_alloc\<close> left it.
\<close>

lemma udp_sys_send_packet:
  assumes r0: "0 \<le> ip_reserve C" and r1: "ip_reserve C + 8 < 2147483648"
    and mx: "uint (MAX_ETH_PKT_SIZE C) < 65536"
    and ok: "udp_sys_send C K s data len fresh = (Inr n, K')" and n0: "0 \<le> n"
  shows "n = uint len \<and>
         (\<exists>p src_ip dst_ip.
            ip_sent K' = ip_sent K @ [(p, IPPROTO_UDP, src_ip, dst_ip)] \<and>
            pkt_tl p = pkt_data fresh + ip_reserve C \<and>
            pkt_end p - pkt_tl p = uint len + 8 \<and>
            uint (ntohs (udp_len p)) = uint len + 8 \<and>
            udp_csum_over_buffer src_ip dst_ip p = 0 \<and>
            pkt_mem p (pkt_end p) = pkt_mem fresh (pkt_end p))"
proof -
  define space where "space = udp_reserve C"
  have sp: "space = ip_reserve C + 8" by (simp add: space_def udp_reserve_def sizeof_udphdr_def)
  obtain b K1 where bk:
    "(if \<not> sk_bound (sockets K s) then udp_bind_to_ephemeral K s else (True, K)) = (b, K1)"
    by (cases "if \<not> sk_bound (sockets K s) then udp_bind_to_ephemeral K s else (True, K)") blast
  from ok have chk: "\<not> word_of_int space + len > MAX_ETH_PKT_SIZE C"
    and conn: "sk_connected (sockets K s)"
    unfolding space_def by (auto simp add: udp_sys_send_def Let_def split: if_splits)
  from ok chk conn bk have b: b
    unfolding space_def by (cases b) (auto simp add: udp_sys_send_def Let_def)
  from ok chk conn bk b obtain bytes where d: "data = Some bytes"
    unfolding space_def by (cases data) (auto simp add: udp_sys_send_def Let_def copy_from_user_def)
  define pkt where "pkt = fresh\<lparr>pkt_al := pkt_data fresh + space,
      pkt_mem := store_bytes (pkt_mem fresh) (pkt_data fresh + space) bytes (unat len),
      pkt_end := pkt_data fresh + space + uint len\<rparr>"
  define src_ip where "src_ip = (if sin_addr (src (sockets K1 s)) \<noteq> 0 then sin_addr (src (sockets K1 s)) else nif_ip K1)"
  from ok chk conn bk b d have res: "n = sint len"
    "K' = udp_send K1 pkt src_ip (sin_addr (dst (sockets K1 s))) (sin_port (src (sockets K1 s))) (sin_port (dst (sockets K1 s)))"
    unfolding space_def pkt_def src_ip_def
    by (auto simp add: udp_sys_send_def Let_def copy_from_user_def)
  have n: "n = uint len" and lb: "uint len < 2147483648"
    using sint_nonneg_uint [of len] n0 res(1) by simp_all
  have sent1: "ip_sent K1 = ip_sent K"
  proof (cases "sk_bound (sockets K s)")
    case True
    with bk show ?thesis by simp
  next
    case False
    with bk b have "udp_bind_to_ephemeral_loop 100 K s = (True, K1)"
      by (simp add: udp_bind_to_ephemeral_def)
    from ephemeral_loop_bound [OF this] show ?thesis by simp
  qed
  have "uint (word_of_int space :: 32 word) = space mod 4294967296"
    by (simp only: uint_word_of_int) simp
  also have "\<dots> = space"
    using r0 r1 sp by (intro mod_pos_pos_trivial) simp_all
  finally have us: "uint (word_of_int space :: 32 word) = space" .
  have "uint (word_of_int space + len) = (space + uint len) mod 4294967296"
    by (simp add: uint_word_ariths us)
  also have "\<dots> = space + uint len"
    using r0 r1 sp lb by (intro mod_pos_pos_trivial) simp_all
  finally have "space + uint len \<le> uint (MAX_ETH_PKT_SIZE C)"
    using chk by (simp add: word_le_def not_less)
  then have small: "uint len + 8 < 65536" using mx r0 sp by linarith
  have lo: "0 \<le> pkt_end pkt - pkt_al pkt" and hi: "pkt_end pkt - pkt_al pkt + 8 < 65536"
    using small by (simp_all add: pkt_def)
  from udp_send_datagram [OF lo hi, of K1 src_ip "sin_addr (dst (sockets K1 s))"
      "sin_port (src (sockets K1 s))" "sin_port (dst (sockets K1 s))"]
  obtain p where p: "ip_sent K' = ip_sent K1 @ [(p, IPPROTO_UDP, src_ip, sin_addr (dst (sockets K1 s)))]"
    "pkt_tl p = pkt_al pkt - 8" "pkt_end p = pkt_end pkt"
    "uint (ntohs (udp_len p)) = pkt_end pkt - pkt_al pkt + 8"
    "udp_csum_over_buffer src_ip (sin_addr (dst (sockets K1 s))) p = 0"
    "pkt_mem p (pkt_end pkt) = pkt_mem pkt (pkt_end pkt)"
    unfolding res(2) by blast
  have "pkt_tl p = pkt_data fresh + ip_reserve C" using p(2) sp by (simp add: pkt_def)
  moreover have "pkt_end p - pkt_tl p = uint len + 8" using p(2,3) by (simp add: pkt_def)
  moreover have "uint (ntohs (udp_len p)) = uint len + 8" using p(4) by (simp add: pkt_def)
  moreover have "pkt_mem p (pkt_end p) = pkt_mem fresh (pkt_end p)"
    using p(3,6) by (simp add: pkt_def store_bytes_def)
  ultimately show ?thesis using n p(1,5) sent1 by auto
qed

subsection \<open>Verification by a receiver that pads with a zero byte\<close>

lemma load16s_cong:
  "(\<And>x. a \<le> x \<Longrightarrow> x < a + 2 * int n \<Longrightarrow> m' x = m x) \<Longrightarrow> load16s m' a n = load16s m a n"
proof (induction n arbitrary: a)
  case 0
  show ?case by simp
next
  case (Suc n)
  have "m' a = m a" "m' (a + 1) = m (a + 1)" by (simp_all add: Suc.prems)
  then have "read16 m' a = read16 m a" by (simp add: read16_def)
  moreover have "load16s m' (a + 2) n = load16s m (a + 2) n"
    by (rule Suc.IH) (simp add: Suc.prems)
  ultimately show ?case by simp
qed

text \<open>
  The verification gives what the sum over the buffer gives when the datagram has an even
  number of bytes, and when the byte of the buffer that follows it is zero.
\<close>

lemma udp_csum_verify_eq:
  assumes ul: "uint (ntohs (udp_len p)) = pkt_end p - pkt_tl p"
    and l8: "8 \<le> pkt_end p - pkt_tl p"
    and pad: "even (pkt_end p - pkt_tl p) \<or> pkt_mem p (pkt_end p) = 0"
  shows "udp_csum_verify src_ip dst_ip p = udp_csum_over_buffer src_ip dst_ip p"
proof -
  define L where "L = pkt_end p - pkt_tl p"
  define m' where "m' = (\<lambda>a. if a < pkt_tl p + L then pkt_mem p a else 0)"
  define n where "n = (nat L + 1) div 2"
  have len': "read16 m' (pkt_tl p + 4) = read16 (pkt_mem p) (pkt_tl p + 4)"
    using l8 unfolding m'_def L_def read16_def by simp
  have nL: "2 * int n \<le> L + 1" using l8 unfolding n_def L_def by linarith
  have same: "m' x = pkt_mem p x" if "pkt_tl p \<le> x" "x < pkt_tl p + 2 * int n" for x
  proof (cases "x < pkt_tl p + L")
    case True
    then show ?thesis by (simp add: m'_def)
  next
    case False
    with that nL have x: "x = pkt_tl p + L" by linarith
    have "odd L"
    proof
      assume "even L"
      then obtain k where k: "L = 2 * k" by (elim evenE)
      have k0: "0 \<le> k" using l8 k unfolding L_def by linarith
      have "nat L = 2 * nat k" unfolding k using k0 by (simp add: nat_mult_distrib)
      then have "n = nat k" unfolding n_def by simp
      then have "2 * int n = L" using k k0 by simp
      with that x show False by simp
    qed
    with pad have "pkt_mem p (pkt_end p) = 0" unfolding L_def by simp
    then show ?thesis unfolding x by (simp add: m'_def L_def)
  qed
  have words: "load16s m' (pkt_tl p) n = load16s (pkt_mem p) (pkt_tl p) n"
    by (rule load16s_cong) (rule same)
  have nw: "(unat (ntohs (udp_len p)) + 1) div 2 = n"
    using ul unfolding n_def L_def by (simp add: unat_eq_nat_uint)
  show ?thesis
    unfolding udp_csum_verify_def udp_csum_over_buffer_def Let_def
    using len' words nw ul
    by (simp add: udp_len_def m'_def L_def)
qed

text \<open>
  So the datagram of a successful \<open>udp_sys_send\<close> verifies to zero when
  \<open>len\<close> is even, and for odd \<open>len\<close> when the buffer that \<open>packet_alloc\<close> returned holds a
  zero in the byte after the payload.
\<close>

lemma udp_sys_send_zero_padded:
  assumes r0: "0 \<le> ip_reserve C" and r1: "ip_reserve C + 8 < 2147483648"
    and mx: "uint (MAX_ETH_PKT_SIZE C) < 65536"
    and ok: "udp_sys_send C K s data len fresh = (Inr n, K')" and n0: "0 \<le> n"
    and pad: "even (uint len) \<or> pkt_mem fresh (pkt_data fresh + ip_reserve C + 8 + uint len) = 0"
  shows "\<exists>p src_ip dst_ip.
            ip_sent K' = ip_sent K @ [(p, IPPROTO_UDP, src_ip, dst_ip)] \<and>
            udp_csum_verify src_ip dst_ip p = 0"
proof -
  from udp_sys_send_packet [OF r0 r1 mx ok n0]
  obtain p src_ip dst_ip where p:
    "ip_sent K' = ip_sent K @ [(p, IPPROTO_UDP, src_ip, dst_ip)]"
    "pkt_tl p = pkt_data fresh + ip_reserve C"
    "pkt_end p - pkt_tl p = uint len + 8"
    "uint (ntohs (udp_len p)) = uint len + 8"
    "udp_csum_over_buffer src_ip dst_ip p = 0"
    "pkt_mem p (pkt_end p) = pkt_mem fresh (pkt_end p)"
    by blast
  have e: "pkt_end p = pkt_data fresh + ip_reserve C + 8 + uint len" using p(2,3) by linarith
  have "even (uint len + 8) = even (uint len)" by simp
  moreover have "pkt_mem p (pkt_end p) = pkt_mem fresh (pkt_data fresh + ip_reserve C + 8 + uint len)"
    using p(6) unfolding e .
  ultimately have "even (uint len + 8) \<or> pkt_mem p (pkt_end p) = 0"
    using pad by (simp only:)
  then have "even (pkt_end p - pkt_tl p) \<or> pkt_mem p (pkt_end p) = 0"
    unfolding p(3) .
  moreover have "8 \<le> pkt_end p - pkt_tl p" unfolding p(3) by simp
  moreover have "uint (ntohs (udp_len p)) = pkt_end p - pkt_tl p" using p(3,4) by simp
  ultimately have "udp_csum_verify src_ip dst_ip p = udp_csum_over_buffer src_ip dst_ip p"
    by (intro udp_csum_verify_eq)
  with p(1,5) show ?thesis by auto
qed

subsection \<open>An odd number of bytes\<close>

lemma load16s_snoc: "load16s m a (Suc n) = load16s m a n @ [read16 m (a + 2 * int n)]"
proof (induction n arbitrary: a)
  case 0
  show ?case by simp
next
  case (Suc n)
  have "load16s m a (Suc (Suc n)) = read16 m a # load16s m (a + 2) (Suc n)" by simp
  also have "\<dots> = read16 m a # (load16s m (a + 2) n @ [read16 m (a + 2 + 2 * int n)])"
    by (simp only: Suc.IH)
  finally show ?case by (simp add: algebra_simps)
qed

lemma unat_byte_lt: "unat (b :: 8 word) < 256"
  using unsigned_less [of b] by simp

lemma unat_ucast_byte: "unat (ucast (b :: 8 word) :: 16 word) = unat b"
  using unat_byte_lt [of b] by (simp add: unsigned_ucast_eq take_bit_eq_mod)

lemma unat_push8: "unat (push_bit 8 (ucast (b :: 8 word)) :: 16 word) = 256 * unat b"
proof -
  have "unat (push_bit 8 (ucast b) :: 16 word) = take_bit 16 (push_bit 8 (unat (ucast b :: 16 word)))"
    by (simp add: unsigned_push_bit_eq)
  also have "\<dots> = (256 * unat b) mod 65536"
    by (simp add: unat_ucast_byte take_bit_eq_mod push_bit_eq_mult mult.commute)
  also have "\<dots> = 256 * unat b"
    using unat_byte_lt [of b] by (intro mod_less) linarith
  finally show ?thesis .
qed

lemma unat_read16: "unat (read16 m a) = unat (m a) + 256 * unat (m (a + 1))"
proof -
  have "(ucast (m a) :: 16 word) AND push_bit 8 (ucast (m (a + 1))) = 0"
    by (rule bit_word_eqI) (auto simp add: bit_simps dest: bit_imp_le_length)
  then have "read16 m a = ucast (m a) + push_bit 8 (ucast (m (a + 1)))"
    unfolding read16_def by (simp add: disjunctive_add_eq_or)
  moreover have "unat ((ucast (m a) :: 16 word) + push_bit 8 (ucast (m (a + 1))))
        = (unat (m a) + 256 * unat (m (a + 1))) mod 65536"
    by (simp add: unat_word_ariths unat_ucast_byte unat_push8)
  moreover have "(unat (m a) + 256 * unat (m (a + 1))) mod 65536 = unat (m a) + 256 * unat (m (a + 1))"
    using unat_byte_lt [of "m a"] unat_byte_lt [of "m (a + 1)"] by (intro mod_less) linarith
  ultimately show ?thesis by simp
qed


lemma sum_load16s_snoc:
  "sum_list (map unat (load16s m a (Suc n)))
     = sum_list (map unat (load16s m a n)) + unat (m (a + 2 * int n)) + 256 * unat (m (a + 2 * int n + 1))"
  unfolding load16s_snoc by (simp add: unat_read16)

lemma unat_csum_finalize_zero_iff:
  assumes "csum_finalize c = 0"
  shows "unat c \<noteq> 0 \<and> (unat c - 1) mod 65535 = 65534"
proof -
  define f where "f = unat (csum_fold c)"
  have "unat (csum_finalize c) = 65535 - f" unfolding f_def by (rule unat_csum_finalize)
  moreover have "unat (csum_finalize c) = 0" using assms by simp
  moreover have "f < 65536" unfolding f_def by (rule unat_csum_fold_le)
  ultimately have f: "f = 65535" by linarith
  have fc: "f = (if unat c = 0 then 0 else (unat c - 1) mod 65535 + 1)"
    unfolding f_def by (rule unat_csum_fold)
  show ?thesis
  proof (cases "unat c = 0")
    case True
    with fc f show ?thesis by simp
  next
    case False
    with fc have "f = (unat c - 1) mod 65535 + 1" by (simp only: if_False)
    with f have "(unat c - 1) mod 65535 = 65534" by linarith
    with False show ?thesis by simp
  qed
qed

text \<open>Taking \<open>256 * b\<close> out of a sum that finalizes to zero leaves one that finalizes to \<open>256 * b\<close>.\<close>

lemma csum_finalize_less:
  assumes z: "csum_finalize c = 0" and u: "unat c = unat c' + 256 * b" and b: "b < 256"
    and p: "0 < unat c'"
  shows "unat (csum_finalize c') = 256 * b"
proof -
  define S where "S = unat c"
  define S' where "S' = unat c'"
  define a where "a = (S - 1) div 65535"
  from unat_csum_finalize_zero_iff [OF z]
  have S0: "S \<noteq> 0" and Sm: "(S - 1) mod 65535 = 65534" unfolding S_def by simp_all
  have "S - 1 = a * 65535 + (S - 1) mod 65535" unfolding a_def by simp
  then have S1: "S - 1 = a * 65535 + 65534" unfolding Sm .
  have "S = S' + 256 * b" using u unfolding S_def S'_def .
  then have "S' - 1 = (65534 - 256 * b) + a * 65535" using S1 S0 b p unfolding S'_def by linarith
  then have "(S' - 1) mod 65535 = (65534 - 256 * b) mod 65535" by (simp only: mod_mult_self1)
  also have "\<dots> = 65534 - 256 * b" by (intro mod_less) linarith
  finally have m: "(S' - 1) mod 65535 = 65534 - 256 * b" .
  have "unat c' \<noteq> 0" using p by simp
  then have "unat (csum_fold c') = (unat c' - 1) mod 65535 + 1"
    by (simp only: unat_csum_fold if_False)
  then have "unat (csum_fold c') = (S' - 1) mod 65535 + 1" unfolding S'_def .
  then have "unat (csum_fold c') = 65535 - 256 * b" unfolding m using b by linarith
  then show ?thesis unfolding unat_csum_finalize using b by linarith
qed

text \<open>
  For a datagram with an odd number of bytes whose sum over the buffer finalizes to zero,
  the receiver's verification gives the byte that follows the datagram in the sender's
  buffer, moved to the upper half of the word: zero exactly when that byte is zero.
\<close>

lemma udp_csum_verify_odd:
  assumes ul: "uint (ntohs (udp_len p)) = pkt_end p - pkt_tl p"
    and l8: "8 \<le> pkt_end p - pkt_tl p" and lt: "pkt_end p - pkt_tl p < 65536"
    and od: "odd (pkt_end p - pkt_tl p)"
    and buf: "udp_csum_over_buffer src_ip dst_ip p = 0"
  shows "udp_csum_verify src_ip dst_ip p = push_bit 8 (ucast (pkt_mem p (pkt_end p)))"
proof -
  let ?t = "pkt_tl p"
  let ?m = "pkt_mem p"
  define L where "L = pkt_end p - ?t"
  define m' where "m' = (\<lambda>a. if a < ?t + L then ?m a else 0)"
  define P where "P = halves32 src_ip @ halves32 dst_ip @ [ntohs (ucast IPPROTO_UDP), udp_len p]"
  from od obtain j where j: "L = 2 * j + 1" unfolding L_def by (elim oddE)
  define k where "k = nat j"
  have j0: "0 \<le> j" using l8 j unfolding L_def by linarith
  have Lk: "L = 2 * int k + 1" using j j0 unfolding k_def by simp
  have kb: "k \<le> 32767" using lt Lk unfolding L_def by linarith
  have "nat L = 2 * k + 1" using Lk by linarith
  then have n: "(nat L + 1) div 2 = Suc k" by simp
  have nw: "(unat (ntohs (udp_len p)) + 1) div 2 = Suc k"
    using ul n unfolding L_def by (simp add: unat_eq_nat_uint)
  have e: "pkt_end p = ?t + 2 * int k + 1" using Lk unfolding L_def by linarith
  have len': "read16 m' (?t + 4) = read16 ?m (?t + 4)"
    using l8 unfolding m'_def L_def read16_def by simp
  define c where "c = csum_add csum_init (P @ load16s ?m ?t (Suc k))"
  define c' where "c' = csum_add csum_init (P @ load16s m' ?t (Suc k))"
  have B: "udp_csum_over_buffer src_ip dst_ip p = csum_finalize c"
    unfolding udp_csum_over_buffer_def Let_def nw c_def P_def ..
  have V: "udp_csum_verify src_ip dst_ip p = csum_finalize c'"
    unfolding udp_csum_verify_def udp_csum_over_buffer_def Let_def
    using len' nw ul
    by (simp add: udp_len_def c'_def P_def m'_def L_def)
  define sP where "sP = sum_list (map unat P)"
  define A where "A = sum_list (map unat (load16s ?m ?t k))"
  have sPb: "sP \<le> 6 * 65535"
    using sum16_bound [of P] unfolding sP_def P_def halves32_def by simp
  have Ab: "A \<le> k * 65535"
    using sum16_bound [of "load16s ?m ?t k"] unfolding A_def by (simp add: length_load16s)
  have lo: "unat (?m (?t + 2 * int k)) < 256" and hi: "unat (?m (?t + 2 * int k + 1)) < 256"
    by (rule unat_byte_lt)+
  have same: "load16s m' ?t k = load16s ?m ?t k"
    by (rule load16s_cong) (simp add: m'_def Lk)
  have m'lo: "m' (?t + 2 * int k) = ?m (?t + 2 * int k)" and m'hi: "m' (?t + 2 * int k + 1) = 0"
    by (simp_all add: m'_def Lk)
  have sc: "sum_list (map unat (P @ load16s ?m ?t (Suc k)))
              = sP + A + unat (?m (?t + 2 * int k)) + 256 * unat (?m (?t + 2 * int k + 1))"
    unfolding map_append sum_list_append sum_load16s_snoc sP_def A_def by simp
  have sc': "sum_list (map unat (P @ load16s m' ?t (Suc k))) = sP + A + unat (?m (?t + 2 * int k))"
    unfolding map_append sum_list_append sum_load16s_snoc same m'lo m'hi sP_def A_def by simp
  have "k * 65535 \<le> 32767 * 65535" using kb by simp
  then have room: "sP + A + unat (?m (?t + 2 * int k)) + 256 * unat (?m (?t + 2 * int k + 1)) < 4294967296"
    using sPb Ab lo hi by linarith
  have uc: "unat c = sP + A + unat (?m (?t + 2 * int k)) + 256 * unat (?m (?t + 2 * int k + 1))"
    unfolding c_def unat_csum_add sc csum_init_def using room by simp
  have uc': "unat c' = sP + A + unat (?m (?t + 2 * int k))"
    unfolding c'_def unat_csum_add sc' csum_init_def using room by simp
  have "unat (ntohs (ucast IPPROTO_UDP)) = 4352"
    by (simp add: ntohs_def IPPROTO_UDP_def)
  then have "4352 \<le> sP" unfolding sP_def P_def by simp
  then have pos: "0 < unat c'" unfolding uc' by linarith
  have rel: "unat c = unat c' + 256 * unat (?m (?t + 2 * int k + 1))" unfolding uc uc' by simp
  have z: "csum_finalize c = 0" using buf unfolding B .
  have "unat (csum_finalize c') = 256 * unat (?m (?t + 2 * int k + 1))"
    by (rule csum_finalize_less [OF z rel hi pos])
  also have "\<dots> = unat (push_bit 8 (ucast (?m (?t + 2 * int k + 1))) :: 16 word)"
    by (simp only: unat_push8)
  finally have "csum_finalize c' = push_bit 8 (ucast (?m (?t + 2 * int k + 1)))"
    by (rule unsigned_word_eqI)
  then show ?thesis unfolding V e .
qed

text \<open>
  So for odd \<open>len\<close> the datagram of a successful \<open>udp_sys_send\<close> verifies to the byte that
  \<open>packet_alloc\<close> left after the payload, shifted left by eight.
\<close>

lemma udp_sys_send_odd_len:
  assumes r0: "0 \<le> ip_reserve C" and r1: "ip_reserve C + 8 < 2147483648"
    and mx: "uint (MAX_ETH_PKT_SIZE C) < 65536"
    and ok: "udp_sys_send C K s data len fresh = (Inr n, K')" and n0: "0 \<le> n"
    and od: "odd (uint len)"
  shows "\<exists>p src_ip dst_ip.
            ip_sent K' = ip_sent K @ [(p, IPPROTO_UDP, src_ip, dst_ip)] \<and>
            uint (ntohs (udp_len p)) = uint len + 8 \<and>
            udp_csum_verify src_ip dst_ip p
              = push_bit 8 (ucast (pkt_mem fresh (pkt_data fresh + ip_reserve C + 8 + uint len)))"
proof -
  from udp_sys_send_packet [OF r0 r1 mx ok n0]
  obtain p src_ip dst_ip where p:
    "ip_sent K' = ip_sent K @ [(p, IPPROTO_UDP, src_ip, dst_ip)]"
    "pkt_tl p = pkt_data fresh + ip_reserve C"
    "pkt_end p - pkt_tl p = uint len + 8"
    "uint (ntohs (udp_len p)) = uint len + 8"
    "udp_csum_over_buffer src_ip dst_ip p = 0"
    "pkt_mem p (pkt_end p) = pkt_mem fresh (pkt_end p)"
    by blast
  have e: "pkt_end p = pkt_data fresh + ip_reserve C + 8 + uint len" using p(2,3) by linarith
  have ul: "uint (ntohs (udp_len p)) = pkt_end p - pkt_tl p" using p(3,4) by simp
  have l8: "8 \<le> pkt_end p - pkt_tl p" unfolding p(3) by simp
  have "uint (ntohs (udp_len p)) < 65536" using uint_lt2p [of "ntohs (udp_len p)"] by simp
  then have lt: "pkt_end p - pkt_tl p < 65536" unfolding ul .
  have "odd (uint len + 8)" using od by simp
  then have o: "odd (pkt_end p - pkt_tl p)" unfolding p(3) .
  have "udp_csum_verify src_ip dst_ip p = push_bit 8 (ucast (pkt_mem p (pkt_end p)))"
    by (rule udp_csum_verify_odd [OF ul l8 lt o p(5)])
  also have "pkt_mem p (pkt_end p) = pkt_mem fresh (pkt_data fresh + ip_reserve C + 8 + uint len)"
    using p(6) unfolding e .
  finally show ?thesis using p(1,4) by blast
qed

text \<open>
  C4. The claim: every successful \<open>udp_sys_send\<close> with payload length \<open>len\<close> writes a UDP
  header whose length field is \<open>len + 8\<close> in network byte order and whose checksum, over the
  pseudo-header and the header and payload rounded up to whole 16-bit words, verifies to
  zero. The length field is as claimed, and the checksum verifies for even \<open>len\<close>. For odd
  \<open>len\<close> the code does otherwise: \<open>udp_send\<close> sums one byte more than the datagram has, the
  byte at \<open>pkt->end\<close>, which nothing has written. A connected socket sends the three bytes
  1, 2, 3 in a packet whose buffer holds \<open>0xAA\<close> in every byte: the call returns 3, the
  datagram has the length field 11, and its verification over the zero-padded payload gives
  \<open>0xAA00\<close>, not zero.
\<close>

theorem udp_sys_send_odd_len_checksum:
  "fst (udp_sys_send consts0 connected0 2 (Some payload0) 3 packet0) = Inr 3 \<and>
   map (\<lambda>(p, proto, src_ip, dst_ip). (proto, uint (ntohs (udp_len p)), udp_csum_verify src_ip dst_ip p))
       (ip_sent (snd (udp_sys_send consts0 connected0 2 (Some payload0) 3 packet0)))
     = [(17, 11, 0xAA00)]"
proof -
  have r0: "0 \<le> ip_reserve consts0" and r1: "ip_reserve consts0 + 8 < 2147483648"
    and mx: "uint (MAX_ETH_PKT_SIZE consts0) < 65536"
    by (simp_all add: consts0_def)
  have f: "fst (udp_sys_send consts0 connected0 2 (Some payload0) 3 packet0) = Inr 3"
    by (simp add: udp_sys_send_def udp_reserve_def sizeof_udphdr_def consts0_def connected0_def
          udp_connect_def udp_bind_to_ephemeral_unfold udp_defs Let_def)
  then have ok: "udp_sys_send consts0 connected0 2 (Some payload0) 3 packet0
                   = (Inr 3, snd (udp_sys_send consts0 connected0 2 (Some payload0) 3 packet0))"
    by (simp add: prod_eq_iff)
  have s0: "ip_sent connected0 = []"
    by (simp add: connected0_def udp_connect_def consts0_def udp_defs)
  have od: "odd (uint (3 :: 32 word))" by simp
  have b: "pkt_mem packet0 (pkt_data packet0 + ip_reserve consts0 + 8 + uint (3 :: 32 word)) = 0xAA"
    by (simp add: packet0_def)
  have sh: "push_bit 8 (ucast (0xAA :: 8 word)) = (0xAA00 :: 16 word)" by simp
  from udp_sys_send_odd_len [OF r0 r1 mx ok _ od]
  obtain p src_ip dst_ip where p:
    "ip_sent (snd (udp_sys_send consts0 connected0 2 (Some payload0) 3 packet0))
       = [(p, IPPROTO_UDP, src_ip, dst_ip)]"
    "uint (ntohs (udp_len p)) = 11"
    "udp_csum_verify src_ip dst_ip p = 0xAA00"
    unfolding b sh s0 by auto
  show ?thesis using f p by (simp add: IPPROTO_UDP_def)
qed

text \<open>
  C10. When \<open>udp_sys_send\<close> on a connected socket reaches the copy of the payload and the
  copy faults, the call returns the fault code, the packet just allocated is handed to
  \<open>packet_free\<close> and nothing is sent. When the socket was unbound on entry, the state
  returned is that of the ephemeral bind with the packet freed: the socket stays bound and
  its entry stays in the endpoint table.
\<close>

theorem udp_sys_send_fault:
  assumes size_ok: "\<not> word_of_int (udp_reserve C) + len > MAX_ETH_PKT_SIZE C"
    and conn: "sk_connected (sockets K s)"
    and reach: "sk_bound (sockets K s) \<or> fst (udp_bind_to_ephemeral K s)"
  shows "fst (udp_sys_send C K s None len fresh) = Inl EFAULT \<and>
         freed (snd (udp_sys_send C K s None len fresh))
           = freed K @ [fresh\<lparr>pkt_al := pkt_data fresh + udp_reserve C\<rparr>] \<and>
         ip_sent (snd (udp_sys_send C K s None len fresh)) = ip_sent K \<and>
         (\<not> sk_bound (sockets K s) \<longrightarrow>
            snd (udp_sys_send C K s None len fresh)
              = packet_free (snd (udp_bind_to_ephemeral K s))
                  (fresh\<lparr>pkt_al := pkt_data fresh + udp_reserve C\<rparr>) \<and>
            sk_bound (sockets (snd (udp_sys_send C K s None len fresh)) s) \<and>
            \<lparr>sock = Some s, proc = None, rcv = None,
              port = ntohs (sin_port (src (sockets (snd (udp_sys_send C K s None len fresh)) s)))\<rparr>
              \<in> set (udp_hlist (snd (udp_sys_send C K s None len fresh))
                       (udp_hash (ntohs (sin_port (src (sockets (snd (udp_sys_send C K s None len fresh)) s)))))))"
proof (cases "sk_bound (sockets K s)")
  case True
  then show ?thesis
    using size_ok conn by (simp add: udp_sys_send_def Let_def copy_from_user_def packet_free_def)
next
  case False
  with reach obtain K1 where e: "udp_bind_to_ephemeral K s = (True, K1)"
    by (cases "udp_bind_to_ephemeral K s") auto
  then have "udp_bind_to_ephemeral_loop 100 K s = (True, K1)"
    by (simp add: udp_bind_to_ephemeral_def)
  from ephemeral_loop_bound [OF this] show ?thesis
    using size_ok conn False e by (simp add: udp_sys_send_def Let_def copy_from_user_def packet_free_def)
qed

theorem udp_sys_send_fault_witness:
  "\<not> word_of_int (udp_reserve consts0) + 3 > MAX_ETH_PKT_SIZE consts0 \<and>
   sk_connected (sockets connected0 2) \<and> \<not> sk_bound (sockets connected0 2) \<and>
   fst (udp_bind_to_ephemeral connected0 2) \<and>
   fst (udp_sys_send consts0 connected0 2 None 3 packet0) = Inl EFAULT \<and>
   freed (snd (udp_sys_send consts0 connected0 2 None 3 packet0)) = [packet0\<lparr>pkt_al := 106\<rparr>] \<and>
   ip_sent (snd (udp_sys_send consts0 connected0 2 None 3 packet0)) = [] \<and>
   sk_bound (sockets (snd (udp_sys_send consts0 connected0 2 None 3 packet0)) 2) \<and>
   src (sockets (snd (udp_sys_send consts0 connected0 2 None 3 packet0)) 2) = inaddr_any 20000"
proof -
  have a: "\<not> word_of_int (udp_reserve consts0) + 3 > MAX_ETH_PKT_SIZE consts0"
    by (simp add: udp_reserve_def sizeof_udphdr_def consts0_def)
  have b: "sk_connected (sockets connected0 2)" and c: "\<not> sk_bound (sockets connected0 2)"
    and l: "freed connected0 = []" "ip_sent connected0 = []"
    by (simp_all add: connected0_def udp_connect_def consts0_def udp_defs)
  have e: "udp_bind_to_ephemeral connected0 2
             = (True, udp_do_bind (connected0\<lparr>eph_i := 20001\<rparr>) 2 (inaddr_any 20000))"
    by (simp add: udp_bind_to_ephemeral_unfold connected0_def udp_connect_def consts0_def
          copy_from_user_def lookup_entry_def kstate0_def udp_init_def inaddr_any_def)
  then have d: "fst (udp_bind_to_ephemeral connected0 2)" by simp
  have r: "sk_bound (sockets connected0 2) \<or> fst (udp_bind_to_ephemeral connected0 2)"
    using d by simp
  from udp_sys_send_fault [OF a b r, of packet0] show ?thesis
    using a b c d l e
    by (simp add: udp_reserve_def sizeof_udphdr_def consts0_def packet0_def packet_free_def
          udp_do_bind_bound udp_do_bind_logs)
qed

section \<open>Receiving in a process\<close>

text \<open>
  C5. For a bound socket whose receive queue has a head packet with a payload of
  \<open>pktlen = end - al\<close> bytes, \<open>udp_sys_recv\<close> with a buffer length \<open>len < pktlen\<close> returns
  \<open>EMSGSIZE\<close>, copies nothing out, and leaves the whole state as it was: the packet is still
  the head of the queue and has not been freed.
\<close>

theorem udp_sys_recv_emsgsize:
  assumes "sk_bound (sockets K s)"
    and "recvq (sockets K s) = pkt # rest"
    and "len < word_of_int (pkt_end pkt - pkt_al pkt)"
  shows "udp_sys_recv sleeps K s data len = Some (Inl EMSGSIZE, [], K)"
proof -
  have "recv_wait sleeps K s = Some (pkt, K)"
    using assms(2) by (cases sleeps) (simp_all add: socket_recvq_get_def)
  then show ?thesis
    using assms(1,3) by (simp add: udp_sys_recv_def Let_def)
qed

theorem udp_sys_recv_emsgsize_witness:
  "udp_sys_recv [] queued 1 True 1 = Some (Inl EMSGSIZE, [], queued) \<and>
   recvq (sockets queued 1) = [(dgram 5000)\<lparr>pkt_al := 8\<rparr>] \<and> freed queued = []"
proof -
  have b: "sk_bound (sockets queued 1)" by (simp add: queued_def)
  have q: "recvq (sockets queued 1) = (dgram 5000)\<lparr>pkt_al := 8\<rparr> # []" by (simp add: queued_def)
  have l: "(1 :: 32 word) < word_of_int (pkt_end ((dgram 5000)\<lparr>pkt_al := 8\<rparr>) - pkt_al ((dgram 5000)\<lparr>pkt_al := 8\<rparr>))"
    by (simp add: dgram_def)
  have f: "freed queued = []" by (simp add: queued_def kstate0_def udp_init_def)
  show ?thesis using udp_sys_recv_emsgsize [OF b q l, of "[]" True] q f by simp
qed

section \<open>Connecting\<close>

text \<open>
  C9. For every socket and every address of the right length that can be read from user
  space, \<open>udp_connect\<close> returns 0, stores the address as the socket's destination and sets
  the connected flag. Connecting a second time with the same address gives the result of
  connecting once; connecting with another address afterwards gives the result of
  connecting with that address alone.
\<close>

theorem udp_connect_overwrite:
  "udp_connect C K s (Some a) (sizeof_sockaddr_in C) =
     (Inr 0, K\<lparr>sockets := (sockets K)(s := (sockets K s)\<lparr>dst := a, sk_connected := True\<rparr>)\<rparr>) \<and>
   udp_connect C (snd (udp_connect C K s (Some a) (sizeof_sockaddr_in C))) s (Some a) (sizeof_sockaddr_in C)
     = udp_connect C K s (Some a) (sizeof_sockaddr_in C) \<and>
   udp_connect C (snd (udp_connect C K s (Some a) (sizeof_sockaddr_in C))) s (Some b) (sizeof_sockaddr_in C)
     = udp_connect C K s (Some b) (sizeof_sockaddr_in C)"
  by (simp add: udp_connect_def copy_from_user_def)

section \<open>The virtqueue\<close>





section \<open>Block reads\<close>

text \<open>
  C6. Every read submission on a block device with a virtqueue, for any sector and buffer,
  leaves in slots 0, 1, 2 of the descriptor table the chain 0 \<rightarrow> 1 \<rightarrow> 2: slot 0 with the
  header's physical address, the header length 16, flag \<open>NEXT\<close> and next 1; slot 1 with the
  data buffer's physical address plus 16, length 512, flags \<open>WRITE|NEXT\<close> and next 2; slot 2
  with the header's physical address plus the header size, the footer length 1 and flag
  \<open>WRITE\<close>. The head index 0 is put into the avail ring at the old index, the avail index
  grows by exactly one, and the one register write made is \<open>QueueNotify = 0\<close>.
\<close>

theorem virtio_blk_read_chain:
  assumes "blk_virtq (blkdev V) = Some q"
  shows "\<exists>q'. blk_virtq (blkdev (snd (virtio_blk_read D V hdr_phys data_phys sector))) = Some q' \<and>
           desc q' 0 = \<lparr>desc_addr = ucast hdr_phys, desc_len = 16, desc_flags = 1, desc_next = 1\<rparr> \<and>
           desc q' 1 = \<lparr>desc_addr = ucast (data_phys + 16), desc_len = 512, desc_flags = 3, desc_next = 2\<rparr> \<and>
           desc q' 2 = \<lparr>desc_addr = ucast (hdr_phys + 16), desc_len = 1, desc_flags = 2, desc_next = 0\<rparr> \<and>
           avail_ring q' (avail_idx q) = 0 \<and>
           avail_idx q' = avail_idx q + 1 \<and>
           mmio_log (snd (virtio_blk_read D V hdr_phys data_phys sector)) = mmio_log V @ [(QueueNotify, 0)]"
  using assms
  by (simp add: virtio_blk_read_def Let_def WRITE32_def VIRTIO_BLK_REQ_HEADER_SIZE_def
        VIRTIO_BLK_REQ_FOOTER_SIZE_def VIRTIO_BLK_SECTOR_SIZE_def VIRTQ_DESC_F_NEXT_def
        VIRTQ_DESC_F_WRITE_def)

theorem virtio_blk_read_chain_witness:
  "blk_virtq (blkdev vstate_blk) = Some vq0 \<and>
   (\<exists>q'. blk_virtq (blkdev (snd (virtio_blk_read dev_plain vstate_blk 0x40200000 0x40300000 42))) = Some q' \<and>
      desc q' 0 = \<lparr>desc_addr = 0x40200000, desc_len = 16, desc_flags = 1, desc_next = 1\<rparr> \<and>
      desc q' 1 = \<lparr>desc_addr = 0x40300010, desc_len = 512, desc_flags = 3, desc_next = 2\<rparr> \<and>
      desc q' 2 = \<lparr>desc_addr = 0x40200010, desc_len = 1, desc_flags = 2, desc_next = 0\<rparr> \<and>
      avail_ring q' 7 = 0 \<and> avail_idx q' = 8 \<and>
      mmio_log (snd (virtio_blk_read dev_plain vstate_blk 0x40200000 0x40300000 42)) = [(QueueNotify, 0)])"
proof -
  have q: "blk_virtq (blkdev vstate_blk) = Some vq0" by (simp add: vstate_blk_def)
  have l: "mmio_log vstate_blk = []" by (simp add: vstate_blk_def vstate0_def)
  from virtio_blk_read_chain [OF q, of dev_plain "0x40200000" "0x40300000" 42]
  show ?thesis using q l by (simp add: vq0_def)
qed

section \<open>Device probe\<close>

text \<open>
  C8. \<open>virtio_dev_init\<close> returns \<open>-1\<close>, having written no register (the handshake is not
  reached), when \<open>MagicValue\<close> is not \<open>0x74726976\<close>, and when the magic value is right and
  \<open>Version\<close> is not 2. When both are right and \<open>DeviceID\<close> is zero it returns \<open>-1\<close> and leaves
  the whole state, the output included, as it was. For a block device, when the status read
  back after the features have been written and \<open>FEATURES_OK\<close> has been or-ed into
  \<open>Status\<close> does not have \<open>FEATURES_OK\<close>, \<open>virtio_blk_init\<close> returns \<open>-1\<close> with no further
  register write and without setting up \<open>blkdev\<close>, and so does \<open>virtio_dev_init\<close> that
  dispatched to it.
\<close>

theorem virtio_dev_init_rejects:
  "(READ32 D V MagicValue \<noteq> 0x74726976 \<longrightarrow>
      fst (virtio_dev_init D E V virt intid) = Returns (- 1) \<and>
      dev (snd (virtio_dev_init D E V virt intid)) = dev V \<and>
      mmio_log (snd (virtio_dev_init D E V virt intid)) = mmio_log V) \<and>
   (READ32 D V MagicValue = 0x74726976 \<and> READ32 D V Version \<noteq> 2 \<longrightarrow>
      fst (virtio_dev_init D E V virt intid) = Returns (- 1) \<and>
      dev (snd (virtio_dev_init D E V virt intid)) = dev V \<and>
      mmio_log (snd (virtio_dev_init D E V virt intid)) = mmio_log V) \<and>
   (READ32 D V MagicValue = 0x74726976 \<and> READ32 D V Version = 2 \<and> READ32 D V DeviceID = 0 \<longrightarrow>
      virtio_dev_init D E V virt intid = (Returns (- 1), V)) \<and>
   (READ32 D (virtio_blk_negotiate D V) Status AND 8 = 0 \<longrightarrow>
      fst (virtio_blk_init D E V virt intid) = Returns (- 1) \<and>
      mmio_log (snd (virtio_blk_init D E V virt intid)) = mmio_log (virtio_blk_negotiate D V) \<and>
      blkdev (snd (virtio_blk_init D E V virt intid)) = blkdev (virtio_blk_negotiate D V)) \<and>
   (READ32 D V MagicValue = 0x74726976 \<and> READ32 D V Version = 2 \<and> READ32 D V DeviceID \<noteq> 0 \<and>
    READ32 D (virtio_handshake D V) DeviceID = 2 \<and>
    READ32 D (virtio_blk_negotiate D (virtio_handshake D V)) Status AND 8 = 0 \<longrightarrow>
      fst (virtio_dev_init D E V virt intid) = Returns (- 1))"
  by (simp add: virtio_dev_init_def virtio_blk_init_def Let_def printf_def VIRTIO_MAGIC_def
        VIRTIO_VERSION_def VIRTIO_DEV_BLK_def VIRTIO_STATUS_FEATURES_OK_def)

theorem virtio_dev_init_rejects_witness:
  "READ32 dev_plain (vstate0 (\<lambda>r. 0)) MagicValue \<noteq> 0x74726976 \<and>
   fst (virtio_dev_init dev_plain env0 (vstate0 (\<lambda>r. 0)) 0xC0200000 48) = Returns (- 1) \<and>
   mmio_log (snd (virtio_dev_init dev_plain env0 (vstate0 (\<lambda>r. 0)) 0xC0200000 48)) = [] \<and>
   READ32 dev_plain (vstate0 ((\<lambda>r. 0)(MagicValue := 0x74726976, Version := 1))) Version \<noteq> 2 \<and>
   fst (virtio_dev_init dev_plain env0 (vstate0 ((\<lambda>r. 0)(MagicValue := 0x74726976, Version := 1)))
          0xC0200000 48) = Returns (- 1) \<and>
   READ32 dev_plain (vstate0 ((\<lambda>r. 0)(MagicValue := 0x74726976, Version := 2))) DeviceID = 0 \<and>
   virtio_dev_init dev_plain env0 (vstate0 ((\<lambda>r. 0)(MagicValue := 0x74726976, Version := 2)))
          0xC0200000 48
     = (Returns (- 1), vstate0 ((\<lambda>r. 0)(MagicValue := 0x74726976, Version := 2))) \<and>
   READ32 dev_refusing (virtio_blk_negotiate dev_refusing (vstate0 regs_blk)) Status AND 8 = 0 \<and>
   fst (virtio_blk_init dev_refusing env0 (vstate0 regs_blk) 0xC0200000 48) = Returns (- 1) \<and>
   blk_virtq (blkdev (snd (virtio_blk_init dev_refusing env0 (vstate0 regs_blk) 0xC0200000 48))) = None \<and>
   READ32 dev_refusing (virtio_handshake dev_refusing (vstate0 regs_blk)) DeviceID = 2 \<and>
   fst (virtio_dev_init dev_refusing env0 (vstate0 regs_blk) 0xC0200000 48) = Returns (- 1)"
proof -
  let ?v1 = "vstate0 ((\<lambda>r. 0)(MagicValue := 0x74726976, Version := 1))"
  let ?v2 = "vstate0 ((\<lambda>r. 0)(MagicValue := 0x74726976, Version := 2))"
  have m: "READ32 dev_plain (vstate0 (\<lambda>r. 0)) MagicValue \<noteq> 0x74726976"
    by (simp add: READ32_def dev_plain_def vstate0_def)
  have v: "READ32 dev_plain ?v1 MagicValue = 0x74726976 \<and> READ32 dev_plain ?v1 Version \<noteq> 2"
    by (simp add: READ32_def dev_plain_def vstate0_def)
  have i: "READ32 dev_plain ?v2 MagicValue = 0x74726976 \<and> READ32 dev_plain ?v2 Version = 2 \<and>
           READ32 dev_plain ?v2 DeviceID = 0"
    by (simp add: READ32_def dev_plain_def vstate0_def)
  have h: "dev (virtio_handshake dev_refusing (vstate0 regs_blk)) = regs_blk(Status := 3)"
    by (simp add: virtio_handshake_def WRITE32_def READ32_def dev_refusing_def vstate0_def Let_def
          VIRTIO_STATUS_ACKNOWLEDGE_def VIRTIO_STATUS_DRIVER_def)
  have caps: "virtio_check_capabilities W 0 0 blk_caps = (W, 0, 0)"
    "virtio_check_capabilities W 0 0 indp_caps = (W, 0, 0)" for W :: "(reg \<Rightarrow> 32 word) vstate"
    by (simp_all add: blk_caps_def indp_caps_def)
  have n: "dev (virtio_blk_negotiate dev_refusing W) Status AND 8 = 0"
    if "dev W DeviceFeatures = 0" for W :: "(reg \<Rightarrow> 32 word) vstate"
    using that
    by (simp add: virtio_blk_negotiate_def WRITE32_def READ32_def dev_refusing_def Let_def caps
          VIRTIO_STATUS_FEATURES_OK_def word_bw_assocs)
  have rd: "dev_read dev_refusing d r = d r" for d r
    by (simp add: dev_refusing_def)
  have "dev (vstate0 regs_blk) DeviceFeatures = 0"
    by (simp add: vstate0_def regs_blk_def)
  from n [OF this]
  have f0: "READ32 dev_refusing (virtio_blk_negotiate dev_refusing (vstate0 regs_blk)) Status AND 8 = 0"
    by (simp add: READ32_def rd)
  have "dev (virtio_handshake dev_refusing (vstate0 regs_blk)) DeviceFeatures = 0"
    unfolding h by (simp add: regs_blk_def)
  from n [OF this]
  have f1: "READ32 dev_refusing (virtio_blk_negotiate dev_refusing (virtio_handshake dev_refusing (vstate0 regs_blk)))
              Status AND 8 = 0"
    by (simp add: READ32_def rd)
  have g: "READ32 dev_refusing (vstate0 regs_blk) MagicValue = 0x74726976 \<and>
           READ32 dev_refusing (vstate0 regs_blk) Version = 2 \<and>
           READ32 dev_refusing (vstate0 regs_blk) DeviceID \<noteq> 0 \<and>
           READ32 dev_refusing (virtio_handshake dev_refusing (vstate0 regs_blk)) DeviceID = 2"
    unfolding READ32_def rd h by (simp add: vstate0_def regs_blk_def)
  have b0: "blkdev (virtio_blk_negotiate dev_refusing (vstate0 regs_blk)) = blkdev (vstate0 regs_blk)"
    by (simp add: virtio_blk_negotiate_def WRITE32_def READ32_def Let_def caps vstate0_def regs_blk_def
          dev_refusing_def)
  have l0: "mmio_log (vstate0 (\<lambda>r. 0)) = []" by (simp add: vstate0_def)
  show ?thesis
    using virtio_dev_init_rejects [of dev_plain "vstate0 (\<lambda>r. 0)" env0 "0xC0200000" 48]
      virtio_dev_init_rejects [of dev_plain ?v1 env0 "0xC0200000" 48]
      virtio_dev_init_rejects [of dev_plain ?v2 env0 "0xC0200000" 48]
      virtio_dev_init_rejects [of dev_refusing "vstate0 regs_blk" env0 "0xC0200000" 48]
      m v i f0 f1 g b0 l0
    by (simp add: vstate0_def)
qed

end
